theory Spec2Isabelle
  imports Main "HOL-Library.Multiset" "HOL-Library.Char_ord" "HOL-Library.List_Lexorder"
    "HOL-Library.Sublist"
begin

section \<open>Go strings\<close>

text \<open>
  A Go string is a sequence of bytes, here a \<^typ>\<open>string\<close>. The functions of package
  \<open>strings\<close> that the wrapper calls are modelled on bytes, with the UTF-8 encodings
  written out where the library looks at runes.
\<close>

text \<open>
  The runes for which \<open>unicode.IsSpace\<close> holds, in UTF-8: tab, line feed, vertical tab,
  form feed, carriage return, space, U+0085, U+00A0, U+1680, U+2000 to U+200A, U+2028,
  U+2029, U+202F, U+205F and U+3000.
\<close>

definition spaceRunes :: "string list" where
  "spaceRunes =
    [[CHR 0x09], [CHR 0x0A], [CHR 0x0B], [CHR 0x0C], [CHR 0x0D], [CHR 0x20],
     [CHR 0xC2, CHR 0x85], [CHR 0xC2, CHR 0xA0],
     [CHR 0xE1, CHR 0x9A, CHR 0x80],
     [CHR 0xE2, CHR 0x80, CHR 0x80], [CHR 0xE2, CHR 0x80, CHR 0x81],
     [CHR 0xE2, CHR 0x80, CHR 0x82], [CHR 0xE2, CHR 0x80, CHR 0x83],
     [CHR 0xE2, CHR 0x80, CHR 0x84], [CHR 0xE2, CHR 0x80, CHR 0x85],
     [CHR 0xE2, CHR 0x80, CHR 0x86], [CHR 0xE2, CHR 0x80, CHR 0x87],
     [CHR 0xE2, CHR 0x80, CHR 0x88], [CHR 0xE2, CHR 0x80, CHR 0x89],
     [CHR 0xE2, CHR 0x80, CHR 0x8A],
     [CHR 0xE2, CHR 0x80, CHR 0xA8], [CHR 0xE2, CHR 0x80, CHR 0xA9],
     [CHR 0xE2, CHR 0x80, CHR 0xAF], [CHR 0xE2, CHR 0x81, CHR 0x9F],
     [CHR 0xE3, CHR 0x80, CHR 0x80]]"

text \<open>The number of bytes of the white-space rune a string starts with, or ends with; 0 if none.\<close>

definition leadingSpace :: "string \<Rightarrow> nat" where
  "leadingSpace s = (case find (\<lambda>p. prefix p s) spaceRunes of None \<Rightarrow> 0 | Some p \<Rightarrow> length p)"

definition trailingSpace :: "string \<Rightarrow> nat" where
  "trailingSpace s = (case find (\<lambda>p. suffix p s) spaceRunes of None \<Rightarrow> 0 | Some p \<Rightarrow> length p)"

lemma leadingSpace_le: "leadingSpace s \<le> length s"
  by (auto simp: leadingSpace_def prefix_length_le find_Some_iff split: option.splits)

lemma trailingSpace_le: "trailingSpace s \<le> length s"
  by (auto simp: trailingSpace_def suffix_length_le find_Some_iff split: option.splits)

function TrimLeftSpace :: "string \<Rightarrow> string" where
  "TrimLeftSpace s = (if leadingSpace s = 0 then s else TrimLeftSpace (drop (leadingSpace s) s))"
  by pat_completeness auto
termination
proof (relation "measure length")
  fix s :: string
  assume "leadingSpace s \<noteq> 0"
  with leadingSpace_le [of s] have "0 < length s" by linarith
  with \<open>leadingSpace s \<noteq> 0\<close> show "(drop (leadingSpace s) s, s) \<in> measure length" by simp
qed simp

function TrimRightSpace :: "string \<Rightarrow> string" where
  "TrimRightSpace s =
     (if trailingSpace s = 0 then s else TrimRightSpace (take (length s - trailingSpace s) s))"
  by pat_completeness auto
termination
proof (relation "measure length")
  fix s :: string
  assume "trailingSpace s \<noteq> 0"
  with trailingSpace_le [of s] have "0 < length s" by linarith
  with \<open>trailingSpace s \<noteq> 0\<close>
  show "(take (length s - trailingSpace s) s, s) \<in> measure length" by simp
qed simp

declare TrimLeftSpace.simps [simp del] TrimRightSpace.simps [simp del]

text \<open>\<open>strings.TrimSpace\<close>: all leading and trailing white space removed.\<close>

definition TrimSpace :: "string \<Rightarrow> string" where
  "TrimSpace s = TrimRightSpace (TrimLeftSpace s)"

text \<open>
  \<open>strings.ToLower\<close>. The ASCII letters A to Z are mapped to a to z. Two runes outside
  ASCII have an ASCII lower case: U+0130 (bytes C4 B0) gives \<open>i\<close> and U+212A
  (bytes E2 84 AA) gives \<open>k\<close>. Every other byte from 0x80 on is kept as it is: Go maps
  such runes to runes that are again outside ASCII, and the wrapper only compares lower-cased
  strings with ASCII literals.
\<close>

definition lowerASCII :: "char \<Rightarrow> char" where
  "lowerASCII c =
     (if CHR ''A'' \<le> c \<and> c \<le> CHR ''Z'' then char_of (of_char c + (32 :: nat)) else c)"

fun ToLower :: "string \<Rightarrow> string" where
  "ToLower (a # b # c # cs) =
     (if a = CHR 0xE2 \<and> b = CHR 0x84 \<and> c = CHR 0xAA then CHR ''k'' # ToLower cs
      else if a = CHR 0xC4 \<and> b = CHR 0xB0 then CHR ''i'' # ToLower (c # cs)
      else lowerASCII a # ToLower (b # c # cs))"
| "ToLower [a, b] =
     (if a = CHR 0xC4 \<and> b = CHR 0xB0 then [CHR ''i''] else [lowerASCII a, lowerASCII b])"
| "ToLower [a] = [lowerASCII a]"
| "ToLower [] = []"

declare ToLower.simps [simp del]

text \<open>\<open>strings.Contains\<close>. (\<open>strings.HasPrefix\<close> and \<open>strings.HasSuffix\<close> are \<^const>\<open>prefix\<close> and \<^const>\<open>suffix\<close>.)\<close>

fun Contains :: "string \<Rightarrow> string \<Rightarrow> bool" where
  "Contains [] sub = (sub = [])"
| "Contains (c # cs) sub = (prefix sub (c # cs) \<or> Contains cs sub)"

text \<open>\<open>strings.Cut\<close> at the first occurrence of a one-byte separator: the text before and after.\<close>

definition Cut :: "string \<Rightarrow> char \<Rightarrow> string \<times> string" where
  "Cut s sep = (takeWhile (\<lambda>c. c \<noteq> sep) s, drop 1 (dropWhile (\<lambda>c. c \<noteq> sep) s))"

lemma Cut_snd_shorter: "Cut s sep = (a, b) \<Longrightarrow> s \<noteq> [] \<Longrightarrow> length b < length s"
proof -
  assume c: "Cut s sep = (a, b)" and ne: "s \<noteq> []"
  have "length (dropWhile (\<lambda>c. c \<noteq> sep) s) \<le> length s"
    by (rule length_dropWhile_le)
  moreover have "b = drop 1 (dropWhile (\<lambda>c. c \<noteq> sep) s)"
    using c by (simp add: Cut_def)
  ultimately show ?thesis using ne by (cases "dropWhile (\<lambda>c. c \<noteq> sep) s") auto
qed

text \<open>\<open>%d\<close> of \<open>fmt\<close>: a Go int in decimal.\<close>

fun itoa :: "nat \<Rightarrow> string" where
  "itoa n = (if n < 10 then [''0123456789'' ! n] else itoa (n div 10) @ [''0123456789'' ! (n mod 10)])"

declare itoa.simps [simp del]

definition Sprintf_d :: "int \<Rightarrow> string" where
  "Sprintf_d i = (if i < 0 then CHR ''-'' # itoa (nat (- i)) else itoa (nat i))"

section \<open>Go errors and \<open>fmt\<close>\<close>

text \<open>
  An \<open>error\<close> value: \<open>errors.New\<close> and \<open>fmt.Errorf\<close> without \<open>%w\<close> give an
  \<open>*errors.errorString\<close>; \<open>fmt.Errorf\<close> with one \<open>%w\<close> gives a \<open>*fmt.wrapError\<close> holding
  the message and the wrapped error.
\<close>

datatype goerror = ErrorString string | WrapError string goerror

fun ErrorMsg :: "goerror \<Rightarrow> string" where
  "ErrorMsg (ErrorString m) = m"
| "ErrorMsg (WrapError m e) = m"

text \<open>\<open>fmt.Errorf(prefix + "%w", err)\<close>.\<close>

definition Errorf_w :: "string \<Rightarrow> goerror \<Rightarrow> goerror" where
  "Errorf_w pre e = WrapError (pre @ ErrorMsg e) e"

text \<open>
  \<open>fmt.Sprintf\<close> does not know the verb \<open>%w\<close>: it prints \<open>%!w(T=v)\<close>, the dynamic type and
  the value as \<open>%v\<close> prints the struct behind the pointer, without calling \<open>Error()\<close>. For a
  \<open>*fmt.wrapError\<close> the struct ends with the address of the wrapped error, which is not
  modelled: the text stops after \<open>0x\<close>.
\<close>

fun Sprintf_w :: "goerror \<Rightarrow> string" where
  "Sprintf_w (ErrorString m) = ''%!w(*errors.errorString=&{'' @ m @ ''})''"
| "Sprintf_w (WrapError m e) = ''%!w(*fmt.wrapError=&{'' @ m @ '' 0x})''"

section \<open>Package \<open>net/url\<close>\<close>

subsection \<open>Query escaping\<close>

definition upperhex :: string where
  "upperhex = ''0123456789ABCDEF''"

definition ishex :: "char \<Rightarrow> bool" where
  "ishex c = (CHR ''0'' \<le> c \<and> c \<le> CHR ''9'' \<or> CHR ''a'' \<le> c \<and> c \<le> CHR ''f'' \<or>
              CHR ''A'' \<le> c \<and> c \<le> CHR ''F'')"

definition unhex :: "char \<Rightarrow> nat" where
  "unhex c =
     (if CHR ''0'' \<le> c \<and> c \<le> CHR ''9'' then of_char c - 48
      else if CHR ''a'' \<le> c \<and> c \<le> CHR ''f'' then of_char c - 97 + 10
      else if CHR ''A'' \<le> c \<and> c \<le> CHR ''F'' then of_char c - 65 + 10
      else 0)"

definition isAlnum :: "char \<Rightarrow> bool" where
  "isAlnum c = (CHR ''a'' \<le> c \<and> c \<le> CHR ''z'' \<or> CHR ''A'' \<le> c \<and> c \<le> CHR ''Z'' \<or>
                CHR ''0'' \<le> c \<and> c \<le> CHR ''9'')"

text \<open>\<open>shouldEscape(c, encodeQueryComponent)\<close>: all but letters, digits and \<open>- _ . ~\<close>.\<close>

definition shouldEscape :: "char \<Rightarrow> bool" where
  "shouldEscape c = (\<not> (isAlnum c \<or> c = CHR ''-'' \<or> c = CHR ''_'' \<or> c = CHR ''.'' \<or> c = CHR ''~''))"

definition escapeByte :: "char \<Rightarrow> string" where
  "escapeByte c =
     (if shouldEscape c then
        (if c = CHR '' '' then ''+''
         else [CHR ''%'', upperhex ! (of_char c div 16), upperhex ! (of_char c mod 16)])
      else [c])"

definition QueryEscape :: "string \<Rightarrow> string" where
  "QueryEscape s = concat (map escapeByte s)"

text \<open>\<open>QueryUnescape\<close>; \<open>None\<close> is the \<open>EscapeError\<close> for a \<open>%\<close> not followed by two hex digits.\<close>

fun QueryUnescape :: "string \<Rightarrow> string option" where
  "QueryUnescape [] = Some []"
| "QueryUnescape (c # cs) =
     (if c = CHR ''%'' then
        (case cs of
           h1 # h2 # rest \<Rightarrow>
             if ishex h1 \<and> ishex h2
             then map_option ((#) (char_of (unhex h1 * 16 + unhex h2))) (QueryUnescape rest)
             else None
         | _ \<Rightarrow> None)
      else map_option ((#) (if c = CHR ''+'' then CHR '' '' else c)) (QueryUnescape cs))"

subsection \<open>\<open>url.Values\<close>\<close>

text \<open>
  \<open>Values\<close> is a \<open>map[string][]string\<close>: here a list of keys with their values, each key
  once. The order of the keys has no meaning: \<open>Encode\<close> sorts them.
\<close>

type_synonym Values = "(string \<times> string list) list"

fun Values_Add :: "string \<Rightarrow> string \<Rightarrow> Values \<Rightarrow> Values" where
  "Values_Add k v [] = [(k, [v])]"
| "Values_Add k v ((k', vs) # m) =
     (if k' = k then (k', vs @ [v]) # m else (k', vs) # Values_Add k v m)"

fun Values_Set :: "string \<Rightarrow> string \<Rightarrow> Values \<Rightarrow> Values" where
  "Values_Set k v [] = [(k, [v])]"
| "Values_Set k v ((k', vs) # m) =
     (if k' = k then (k', [v]) # m else (k', vs) # Values_Set k v m)"

definition Join :: "string list \<Rightarrow> string \<Rightarrow> string" where
  "Join xs sep = (case xs of [] \<Rightarrow> [] | x # r \<Rightarrow> x @ concat (map (\<lambda>y. sep @ y) r))"

text \<open>The key/value pairs of a \<open>Values\<close>, key by key.\<close>

definition pairs :: "Values \<Rightarrow> (string \<times> string) list" where
  "pairs m = concat (map (\<lambda>(k, vs). map (Pair k) vs) m)"

text \<open>
  \<open>Values.Encode\<close>: the keys sorted, and for each key its values in order as
  \<open>key=value\<close>, both escaped, joined by \<open>&\<close>.
\<close>

definition Values_Encode :: "Values \<Rightarrow> string" where
  "Values_Encode m =
     Join (map (\<lambda>(k, v). QueryEscape k @ ''='' @ QueryEscape v) (pairs (sort_key fst m))) ''&''"

text \<open>
  \<open>parseQuery\<close>: the loop cuts the query at each \<open>&\<close>; a piece with a semicolon, an empty piece
  and a piece with a bad escape are left out (the error is kept aside and \<open>URL.Query\<close> drops it).
\<close>

function parseQuery :: "Values \<Rightarrow> string \<Rightarrow> Values" where
  "parseQuery m query =
     (if query = [] then m
      else (case Cut query (CHR ''&'') of (key, query') \<Rightarrow>
        if CHR '';'' \<in> set key then parseQuery m query'
        else if key = [] then parseQuery m query'
        else (case Cut key (CHR ''='') of (key', value) \<Rightarrow>
          (case QueryUnescape key' of
             None \<Rightarrow> parseQuery m query'
           | Some k \<Rightarrow>
             (case QueryUnescape value of
                None \<Rightarrow> parseQuery m query'
              | Some v \<Rightarrow> parseQuery (Values_Add k v m) query')))))"
  by pat_completeness auto
termination
  by (relation "measure (\<lambda>(m, query). length query)") (auto dest: Cut_snd_shorter [OF sym])

declare parseQuery.simps [simp del]

subsection \<open>\<open>url.URL\<close>, \<open>url.Parse\<close> and \<open>URL.String\<close>\<close>

text \<open>
  A parsed URL. \<open>Rest\<close> stands for the fields \<open>Opaque\<close>, \<open>User\<close>, \<open>Host\<close> and \<open>Path\<close>: the text
  between the scheme and the query. The library also checks and re-escapes the authority, the
  path and the fragment; that part of \<open>net/url\<close> is not modelled, \<open>Rest\<close> and \<open>Fragment\<close> are
  kept as they were read and written back as they are.
\<close>

record URL =
  Scheme :: string
  Rest :: string
  ForceQuery :: bool
  RawQuery :: string
  Fragment :: string

datatype scan = NoScheme | MissingScheme | ColonAt nat

text \<open>The loop of \<open>getScheme\<close>: \<open>i\<close> is the index of the next byte.\<close>

fun scanScheme :: "nat \<Rightarrow> string \<Rightarrow> scan" where
  "scanScheme i [] = NoScheme"
| "scanScheme i (c # cs) =
     (if CHR ''a'' \<le> c \<and> c \<le> CHR ''z'' \<or> CHR ''A'' \<le> c \<and> c \<le> CHR ''Z'' then scanScheme (i + 1) cs
      else if CHR ''0'' \<le> c \<and> c \<le> CHR ''9'' \<or> c = CHR ''+'' \<or> c = CHR ''-'' \<or> c = CHR ''.''
      then (if i = 0 then NoScheme else scanScheme (i + 1) cs)
      else if c = CHR '':'' then (if i = 0 then MissingScheme else ColonAt i)
      else NoScheme)"

definition getScheme :: "string \<Rightarrow> goerror + string \<times> string" where
  "getScheme rawURL =
     (case scanScheme 0 rawURL of
        NoScheme \<Rightarrow> Inr ('''', rawURL)
      | MissingScheme \<Rightarrow> Inl (ErrorString ''missing protocol scheme'')
      | ColonAt i \<Rightarrow> Inr (take i rawURL, drop (i + 1) rawURL))"

definition stringContainsCTLByte :: "string \<Rightarrow> bool" where
  "stringContainsCTLByte s = list_ex (\<lambda>b. b < CHR '' '' \<or> b = CHR 0x7F) s"

text \<open>
  The \<open>*url.Error\<close> of a failed parse; its message is \<open>parse "url": reason\<close>. (\<open>%q\<close> is
  written as plain double quotes.)
\<close>

definition urlError :: "string \<Rightarrow> string \<Rightarrow> goerror" where
  "urlError u reason = ErrorString (''parse '' @ [CHR 0x22] @ u @ [CHR 0x22] @ '': '' @ reason)"

definition url_Parse :: "string \<Rightarrow> goerror + URL" where
  "url_Parse rawURL =
     (case Cut rawURL (CHR ''#'') of (u, frag) \<Rightarrow>
       if stringContainsCTLByte u
       then Inl (urlError u ''net/url: invalid control character in URL'')
       else (case getScheme u of
          Inl e \<Rightarrow> Inl (urlError u (ErrorMsg e))
        | Inr (scheme, rest) \<Rightarrow>
           (case (if suffix ''?'' rest \<and> count_list rest (CHR ''?'') = 1
                  then (butlast rest, True, [])
                  else (case Cut rest (CHR ''?'') of (r, q) \<Rightarrow> (r, False, q)))
            of (rest', force, rawq) \<Rightarrow>
              if \<not> prefix ''/'' rest' \<and> scheme = [] \<and> CHR '':'' \<in> set (fst (Cut rest' (CHR ''/'')))
              then Inl (urlError u ''first path segment in URL cannot contain colon'')
              else Inr \<lparr>Scheme = ToLower scheme, Rest = rest', ForceQuery = force,
                         RawQuery = rawq, Fragment = frag\<rparr>)))"

definition URL_String :: "URL \<Rightarrow> string" where
  "URL_String u =
     (if Scheme u \<noteq> [] then Scheme u @ '':'' else []) @ Rest u @
     (if ForceQuery u \<or> RawQuery u \<noteq> [] then CHR ''?'' # RawQuery u else []) @
     (if Fragment u \<noteq> [] then CHR ''#'' # Fragment u else [])"

text \<open>\<open>URL.Query\<close>: the parsed \<open>RawQuery\<close>, malformed pairs dropped.\<close>

definition URL_Query :: "URL \<Rightarrow> Values" where
  "URL_Query u = parseQuery [] (RawQuery u)"

section \<open>The types of the wrapper and of its transport\<close>

datatype ClientHandle = TlsClient

text \<open>A \<open>*Session\<close> is a \<open>Session option\<close>; \<open>Client\<close> is \<open>None\<close> when the interface value is nil.\<close>

record Session =
  Client :: "ClientHandle option"
  UserAgent :: string
  SecChUa :: string
  SecChUaPlatform :: string
  MaxRetries :: int

text \<open>
  The \<open>interface{}\<close> body, by what the wrapper can tell of its dynamic type: nil, a
  \<open>string\<close>, a \<open>map[string]string\<close>, or a value of any other type, which carries the error
  message of \<open>json.Marshal\<close> on it if there is one.
\<close>

datatype Body = BodyNil | BodyString string | BodyStringMap "(string \<times> string) list"
  | BodyOther "string option"

text \<open>
  A \<open>map[string]string\<close> is a list of entries with distinct keys, in the order in which a
  \<open>range\<close> loop visits them (an order Go does not fix); \<open>None\<close> is the nil map.
\<close>

type_synonym StringMap = "(string \<times> string) list"

record RequestOptions =
  ReqUrl :: string
  ReqHeaders :: "StringMap option"
  ReqBody :: Body
  Params :: "StringMap option"

datatype SameSite = SameSiteUnset | SameSiteDefaultMode | SameSiteLaxMode | SameSiteStrictMode
  | SameSiteNoneMode

record Cookie =
  Name :: string
  Value :: string
  MaxAge :: int
  HttpOnly :: bool
  Secure :: bool
  SameSite :: SameSite

text \<open>An \<open>http.Header\<close>, a \<open>map[string][]string\<close>.\<close>

type_synonym Header = "string \<rightharpoonup> string list"

record Response =
  Url :: "URL option"
  Body :: "string option"
  StatusCode :: int
  Headers :: "Header option"
  Cookies :: "Cookie option list option"
  Error :: string

text \<open>
  The \<open>io.Reader\<close> a body encoder returns, by what it was made from: the bytes of a
  \<open>strings.Reader\<close>, the JSON text of a value (package \<open>encoding/json\<close> is not modelled), or the
  buffer a \<open>multipart.Writer\<close> with the given boundary filled with the given fields.
\<close>

datatype Reader = StringsReader string | JSONReader Body | MultipartBuffer string StringMap

record Request =
  Method :: string
  ReqURL :: URL
  Header :: Header
  ReqReader :: "Reader option"

text \<open>
  What \<open>Client.Do\<close> hands back when it returns no error: status, header, the cookies
  \<open>resp.Cookies()\<close> reads, the URL \<open>resp.Location()\<close> gives (\<open>None\<close> if it returns an error), and
  what \<open>io.ReadAll\<close> on the body gives: an error message or the bytes.
\<close>

record HttpResponse =
  RespStatusCode :: int
  RespHeader :: Header
  RespCookies :: "Cookie option list"
  RespLocation :: "URL option"
  RespBody :: "string + string"

text \<open>The calls that leave the wrapper: on the client, on the clock, on the cookie-jar constructor.\<close>

datatype event =
    Do Request
  | Sleep int
  | ClientSetCookies URL "Cookie option list"
  | ClientGetCookies "URL option"
  | ClientSetCookieJar
  | ClientSetProxy string
  | NewCookieJar

text \<open>
  The world outside the wrapper. \<open>answers i\<close> is what the \<open>i\<close>-th call of \<open>Client.Do\<close> returns
  (an error message or a response); \<open>store\<close> is what \<open>Client.GetCookies\<close> answers after a
  history of calls; \<open>jarIsNil\<close> says whether \<open>tls_client.NewCookieJar\<close> returns nil;
  \<open>entropy k\<close> are the bytes \<open>crypto/rand\<close> gives to the \<open>k\<close>-th multipart writer, \<open>writers\<close> counts
  the writers made so far; \<open>trace\<close> is the history of calls.
\<close>

record world =
  answers :: "nat \<Rightarrow> string + HttpResponse"
  store :: "event list \<Rightarrow> URL option \<Rightarrow> Cookie option list"
  jarIsNil :: bool
  entropy :: "nat \<Rightarrow> nat \<Rightarrow> char"
  writers :: nat
  trace :: "event list"

fun isDo :: "event \<Rightarrow> bool" where
  "isDo (Do r) = True"
| "isDo e = False"

fun isSleep :: "event \<Rightarrow> bool" where
  "isSleep (Sleep d) = True"
| "isSleep e = False"

definition doCalls :: "world \<Rightarrow> nat" where
  "doCalls w = length (filter isDo (trace w))"

definition sleeps :: "world \<Rightarrow> nat" where
  "sleeps w = length (filter isSleep (trace w))"

definition emit :: "event \<Rightarrow> world \<Rightarrow> world" where
  "emit e w = w\<lparr>trace := trace w @ [e]\<rparr>"

definition client_Do :: "Request \<Rightarrow> world \<Rightarrow> (string + HttpResponse) \<times> world" where
  "client_Do req w = (answers w (doCalls w), emit (Do req) w)"

text \<open>A Go \<open>int64\<close> product: the result wrapped to 64 bits, two's complement.\<close>

definition wrap64 :: "int \<Rightarrow> int" where
  "wrap64 x = (x + 2 ^ 63) mod 2 ^ 64 - 2 ^ 63"

section \<open>Formatting: headers, body, URL\<close>

text \<open>\<open>http.HeaderOrderKey\<close> of the transport's HTTP package, the key under which it reads the order of the headers.\<close>

definition HeaderOrderKey :: string where
  "HeaderOrderKey = ''Header-Order:''"

text \<open>The \<open>switch\<close> of \<open>formatHeaders\<close>: the value that is stored for a key and its value.\<close>

definition applyDefaults :: "Session \<Rightarrow> string \<Rightarrow> string \<Rightarrow> string" where
  "applyDefaults s key value =
     (let normalizedKey = ToLower key
      in if normalizedKey = ''user-agent''
         then (if value = [] \<or> value = ''default'' then UserAgent s else value)
         else if normalizedKey = ''sec-ch-ua''
         then (if value = [] \<or> value = ''default'' then SecChUa s else value)
         else if normalizedKey = ''sec-ch-ua-platform''
         then (if value = [] \<or> value = ''default'' then SecChUaPlatform s else value)
         else value)"

text \<open>
  The \<open>range\<close> loop of \<open>formatHeaders\<close> over the entries that are left, with the header and
  the order built so far. The only caller, \<open>handleResponse\<close>, passes a session that is not nil.
\<close>

fun formatHeadersLoop ::
  "Session \<Rightarrow> StringMap \<Rightarrow> Header \<Rightarrow> string list \<Rightarrow> goerror + Header \<times> string list" where
  "formatHeadersLoop s [] formattedHeaders order = Inr (formattedHeaders, order)"
| "formatHeadersLoop s ((key, value) # rest) formattedHeaders order =
     (if TrimSpace key = [] then Inl (ErrorString ''header key cannot be empty'')
      else formatHeadersLoop s rest (formattedHeaders(key \<mapsto> [applyDefaults s key value]))
             (order @ [key]))"

definition formatHeaders :: "Session \<Rightarrow> StringMap option \<Rightarrow> goerror + Header" where
  "formatHeaders s headers =
     (case headers of
        None \<Rightarrow> Inr Map.empty
      | Some hs \<Rightarrow>
          (case formatHeadersLoop s hs Map.empty [] of
             Inl e \<Rightarrow> Inl e
           | Inr (formattedHeaders, order) \<Rightarrow> Inr (formattedHeaders(HeaderOrderKey \<mapsto> order))))"

definition formatFormURLEncoded :: "Body \<Rightarrow> goerror + Reader option \<times> string" where
  "formatFormURLEncoded body =
     (case body of
        BodyStringMap formData \<Rightarrow>
          Inr (Some (StringsReader (Values_Encode (fold (\<lambda>(k, v). Values_Set k v) formData []))),
               ''application/x-www-form-urlencoded'')
      | _ \<Rightarrow>
          Inl (ErrorString ''body must be map[string]string for application/x-www-form-urlencoded''))"

definition formatTextPlain :: "Body \<Rightarrow> goerror + Reader option \<times> string" where
  "formatTextPlain body =
     (case body of
        BodyString bodyStr \<Rightarrow> Inr (Some (StringsReader bodyStr), ''text/plain'')
      | _ \<Rightarrow> Inl (ErrorString ''body must be string for text/plain''))"

text \<open>
  \<open>multipart.NewWriter\<close> draws its boundary: 30 bytes of \<open>crypto/rand\<close> printed with \<open>%x\<close>.
\<close>

definition lowerhex :: string where
  "lowerhex = ''0123456789abcdef''"

definition hexByte :: "char \<Rightarrow> string" where
  "hexByte c = [lowerhex ! (of_char c div 16), lowerhex ! (of_char c mod 16)]"

definition randomBoundary :: "(nat \<Rightarrow> char) \<Rightarrow> string" where
  "randomBoundary buf = concat (map (\<lambda>i. hexByte (buf i)) [0..<30])"

definition NewWriter :: "world \<Rightarrow> string \<times> world" where
  "NewWriter w = (randomBoundary (entropy w (writers w)), w\<lparr>writers := writers w + 1\<rparr>)"

text \<open>\<open>Writer.FormDataContentType\<close>: the boundary is quoted if it has a special character.\<close>

definition FormDataContentType :: "string \<Rightarrow> string" where
  "FormDataContentType boundary =
     ''multipart/form-data; boundary='' @
     (if list_ex (\<lambda>c. c \<in> set (''()<>@,;:/[]?= '' @ [CHR 0x5C, CHR 0x22])) boundary
      then [CHR 0x22] @ boundary @ [CHR 0x22] else boundary)"

text \<open>
  The writer writes into a \<open>bytes.Buffer\<close>, whose \<open>Write\<close> returns no error: \<open>WriteField\<close> and
  \<open>Close\<close> do not fail, and the two error returns of the source are not reached.
\<close>

definition formatMultipartFormData ::
  "Body \<Rightarrow> world \<Rightarrow> (goerror + Reader option \<times> string) \<times> world" where
  "formatMultipartFormData body w =
     (case body of
        BodyStringMap formData \<Rightarrow>
          (case NewWriter w of (boundary, w') \<Rightarrow>
             (Inr (Some (MultipartBuffer boundary formData), FormDataContentType boundary), w'))
      | _ \<Rightarrow> (Inl (ErrorString ''body must be map[string]string for multipart/form-data''), w))"

text \<open>\<open>json.Marshal\<close> does not fail on a string or on a map of strings.\<close>

definition json_Marshal_error :: "Body \<Rightarrow> string option" where
  "json_Marshal_error body = (case body of BodyOther e \<Rightarrow> e | _ \<Rightarrow> None)"

definition formatJSON :: "Body \<Rightarrow> goerror + Reader option \<times> string" where
  "formatJSON body =
     (case json_Marshal_error body of
        Some e \<Rightarrow> Inl (Errorf_w ''error marshaling body to JSON: '' (ErrorString e))
      | None \<Rightarrow> Inr (Some (JSONReader body), ''application/json''))"

text \<open>The first loop of \<open>formatBody\<close>: the value of the first key that is \<open>content-type\<close> in lower case.\<close>

fun findContentType :: "StringMap \<Rightarrow> string" where
  "findContentType [] = []"
| "findContentType ((key, value) # rest) =
     (if ToLower key = ''content-type'' then ToLower (TrimSpace value) else findContentType rest)"

text \<open>Lines 62 to 79 of \<open>formatBody\<close>: the content type that the dispatch looks at.\<close>

definition resolveContentType :: "StringMap option \<Rightarrow> Body \<Rightarrow> string" where
  "resolveContentType headers body =
     (let contentType = (case headers of None \<Rightarrow> [] | Some hs \<Rightarrow> findContentType hs)
      in if contentType = []
         then (case body of BodyString x \<Rightarrow> ''text/plain'' | _ \<Rightarrow> ''application/json'')
         else contentType)"

definition formatBody ::
  "StringMap option \<Rightarrow> Body \<Rightarrow> world \<Rightarrow> (goerror + Reader option \<times> string) \<times> world" where
  "formatBody headers body w =
     (if body = BodyNil then (Inr (None, []), w)
      else
        let contentType = resolveContentType headers body
        in if Contains contentType ''application/x-www-form-urlencoded''
           then (formatFormURLEncoded body, w)
           else if Contains contentType ''text/plain'' then (formatTextPlain body, w)
           else if Contains contentType ''multipart/form-data''
           then formatMultipartFormData body w
           else (formatJSON body, w))"

text \<open>
  The branch \<open>formatBody\<close> takes: the same tests in the same order, with the name of the encoder
  in place of its call.
\<close>

datatype branch = NoBody | FormURLEncoded | TextPlain | MultipartFormData | JSON

definition bodyBranch :: "StringMap option \<Rightarrow> Body \<Rightarrow> branch" where
  "bodyBranch headers body =
     (if body = BodyNil then NoBody
      else
        let contentType = resolveContentType headers body
        in if Contains contentType ''application/x-www-form-urlencoded'' then FormURLEncoded
           else if Contains contentType ''text/plain'' then TextPlain
           else if Contains contentType ''multipart/form-data'' then MultipartFormData
           else JSON)"

text \<open>The loop of \<open>buildURL\<close> over the extra parameters.\<close>

fun addParams :: "StringMap \<Rightarrow> Values \<Rightarrow> Values" where
  "addParams [] queryParams = queryParams"
| "addParams ((key, value) # rest) queryParams =
     (if TrimSpace key = [] then addParams rest queryParams
      else addParams rest (Values_Add key value queryParams))"

definition buildURL :: "string \<Rightarrow> StringMap option \<Rightarrow> goerror + string" where
  "buildURL baseURL params =
     (if TrimSpace baseURL = [] then Inl (ErrorString ''baseURL cannot be empty'')
      else (case url_Parse baseURL of
        Inl err \<Rightarrow> Inl (Errorf_w ''error parsing URL: '' err)
      | Inr parsedURL \<Rightarrow>
          (case params of
             None \<Rightarrow> Inr (URL_String parsedURL)
           | Some ps \<Rightarrow>
               if length ps = 0 then Inr (URL_String parsedURL)
               else Inr (URL_String
                      (parsedURL\<lparr>RawQuery := Values_Encode (addParams ps (URL_Query parsedURL))\<rparr>)))))"

section \<open>Executing a request\<close>

definition IsValid :: "Session option \<Rightarrow> bool" where
  "IsValid s = (case s of None \<Rightarrow> False | Some x \<Rightarrow> Client x \<noteq> None)"

definition emptyResponse :: Response where
  "emptyResponse = \<lparr>Url = None, Body = None, StatusCode = 0, Headers = None, Cookies = None, Error = []\<rparr>"

text \<open>
  \<open>handleResponse\<close>: one attempt. The header map is formatted, written to the request, and the
  request is handed to \<open>Client.Do\<close>.
\<close>

definition handleResponse ::
  "Session option \<Rightarrow> RequestOptions \<Rightarrow> Request \<Rightarrow> goerror option \<Rightarrow> world \<Rightarrow> Response \<times> world" where
  "handleResponse s request req err w =
     (case err of
        Some e \<Rightarrow> (emptyResponse\<lparr>Error := ''Error creating request: '' @ ErrorMsg e\<rparr>, w)
      | None \<Rightarrow>
     (case s of
        None \<Rightarrow> (emptyResponse\<lparr>Error := ''Session or client is nil''\<rparr>, w)
      | Some sess \<Rightarrow>
          if \<not> IsValid (Some sess) then (emptyResponse\<lparr>Error := ''Session or client is nil''\<rparr>, w)
          else
     (case formatHeaders sess (ReqHeaders request) of
        Inl e \<Rightarrow> (emptyResponse\<lparr>Error := ''Error formatting headers: '' @ ErrorMsg e\<rparr>, w)
      | Inr headers \<Rightarrow>
     (case client_Do (req\<lparr>Header := headers\<rparr>) w of
        (Inl e, w') \<Rightarrow> (emptyResponse\<lparr>Error := ''Request error: '' @ e\<rparr>, w')
      | (Inr resp, w') \<Rightarrow>
          let respURL = (case RespLocation resp of Some location \<Rightarrow> location | None \<Rightarrow> ReqURL req)
          in (case RespBody resp of
                Inl e \<Rightarrow> (emptyResponse\<lparr>Error := ''Error reading response body: '' @ e\<rparr>, w')
              | Inr body \<Rightarrow>
                  (\<lparr>Url = Some respURL, Body = Some body, StatusCode = RespStatusCode resp,
                    Headers = Some (RespHeader resp), Cookies = Some (RespCookies resp),
                    Error = []\<rparr>, w'))))))"

text \<open>
  The loop of \<open>executeWithRetry\<close>, from attempt number \<open>attempt\<close> on. The pause before the next
  attempt is 100 ms times \<open>attempt + 1\<close>, an \<open>int64\<close> of nanoseconds.
\<close>

function retryLoop ::
  "Session \<Rightarrow> RequestOptions \<Rightarrow> Request \<Rightarrow> int \<Rightarrow> int \<Rightarrow> Response \<Rightarrow> world \<Rightarrow> Response \<times> world" where
  "retryLoop s request req maxRetries attempt lastResponse w =
     (if attempt < maxRetries then
        (case handleResponse (Some s) request req None w of (resp, w') \<Rightarrow>
           if Error resp = [] then (resp, w')
           else retryLoop s request req maxRetries (attempt + 1) resp
                  (if attempt < maxRetries - 1
                   then emit (Sleep (wrap64 (100000000 * (attempt + 1)))) w' else w'))
      else
        (lastResponse\<lparr>Error := ''max retries ('' @ Sprintf_d maxRetries @ '') exceeded: '' @
                                  Error lastResponse\<rparr>, w))"
  by pat_completeness auto
termination
  by (relation "measure (\<lambda>(s, request, req, maxRetries, attempt, lastResponse, w).
                  nat (maxRetries - attempt))") auto

declare retryLoop.simps [simp del]

text \<open>\<open>executeWithRetry\<close> reads \<open>s.MaxRetries\<close>: its caller has checked that \<open>s\<close> is not nil.\<close>

definition executeWithRetry :: "Session \<Rightarrow> RequestOptions \<Rightarrow> Request \<Rightarrow> world \<Rightarrow> Response \<times> world" where
  "executeWithRetry s request req w =
     (let maxRetries = (if MaxRetries s \<le> 0 then 1 else MaxRetries s)
      in retryLoop s request req maxRetries 0 emptyResponse w)"

text \<open>
  \<open>http.NewRequest\<close> parses the URL again; the seven methods the wrapper passes are valid.
\<close>

definition http_NewRequest :: "string \<Rightarrow> string \<Rightarrow> Reader option \<Rightarrow> goerror + Request" where
  "http_NewRequest method url body =
     (case url_Parse url of
        Inl e \<Rightarrow> Inl e
      | Inr u \<Rightarrow> Inr \<lparr>Method = method, ReqURL = u, Header = Map.empty, ReqReader = body\<rparr>)"

text \<open>A write \<open>m[k] = v\<close> to a \<open>map[string]string\<close>.\<close>

fun map_set :: "string \<Rightarrow> string \<Rightarrow> StringMap \<Rightarrow> StringMap" where
  "map_set k v [] = [(k, v)]"
| "map_set k v ((k', v') # m) = (if k' = k then (k', v) # m else (k', v') # map_set k v m)"

text \<open>
  Lines 95 to 104 of \<open>executeRequest\<close>: the header map after the body is encoded. The map is
  the caller's own (a Go map is a reference), so the caller sees the write too.
\<close>

definition updateContentType :: "string \<Rightarrow> StringMap option \<Rightarrow> StringMap option" where
  "updateContentType contentType headers =
     (case headers of
        None \<Rightarrow> None
      | Some hs \<Rightarrow>
          if contentType \<noteq> [] \<and> Contains contentType ''multipart/form-data''
          then Some (map_set ''content-type'' contentType hs)
          else Some hs)"

definition executeRequest :: "string \<Rightarrow> Session option \<Rightarrow> RequestOptions \<Rightarrow> world \<Rightarrow> Response \<times> world" where
  "executeRequest method s request w =
     (case s of
        None \<Rightarrow> (emptyResponse\<lparr>Error := ''session or client is nil''\<rparr>, w)
      | Some sess \<Rightarrow>
     if \<not> IsValid (Some sess) then (emptyResponse\<lparr>Error := ''session or client is nil''\<rparr>, w)
     else if TrimSpace (ReqUrl request) = [] then (emptyResponse\<lparr>Error := ''URL cannot be empty''\<rparr>, w)
     else
     (case buildURL (ReqUrl request) (Params request) of
        Inl err \<Rightarrow> (emptyResponse\<lparr>Error := ''error parsing URL: '' @ Sprintf_w err\<rparr>, w)
      | Inr parsedUrl \<Rightarrow>
     (case formatBody (ReqHeaders request) (ReqBody request) w of
        (Inl bodyErr, w') \<Rightarrow> (emptyResponse\<lparr>Error := ''error formatting body: '' @ Sprintf_w bodyErr\<rparr>, w')
      | (Inr (bodyReader, contentType), w') \<Rightarrow>
     (case http_NewRequest method parsedUrl bodyReader of
        Inl err \<Rightarrow> (emptyResponse\<lparr>Error := ''error creating request: '' @ Sprintf_w err\<rparr>, w')
      | Inr req \<Rightarrow>
          executeWithRetry sess
            (request\<lparr>ReqHeaders := updateContentType contentType (ReqHeaders request)\<rparr>) req w'))))"

definition Get :: "Session option \<Rightarrow> RequestOptions \<Rightarrow> world \<Rightarrow> Response \<times> world" where
  "Get s request w = executeRequest ''GET'' s request w"

definition Post :: "Session option \<Rightarrow> RequestOptions \<Rightarrow> world \<Rightarrow> Response \<times> world" where
  "Post s request w = executeRequest ''POST'' s request w"

definition Put :: "Session option \<Rightarrow> RequestOptions \<Rightarrow> world \<Rightarrow> Response \<times> world" where
  "Put s request w = executeRequest ''PUT'' s request w"

definition Delete :: "Session option \<Rightarrow> RequestOptions \<Rightarrow> world \<Rightarrow> Response \<times> world" where
  "Delete s request w = executeRequest ''DELETE'' s request w"

definition Patch :: "Session option \<Rightarrow> RequestOptions \<Rightarrow> world \<Rightarrow> Response \<times> world" where
  "Patch s request w = executeRequest ''PATCH'' s request w"

definition Head :: "Session option \<Rightarrow> RequestOptions \<Rightarrow> world \<Rightarrow> Response \<times> world" where
  "Head s request w = executeRequest ''HEAD'' s request w"

definition Options :: "Session option \<Rightarrow> RequestOptions \<Rightarrow> world \<Rightarrow> Response \<times> world" where
  "Options s request w = executeRequest ''OPTIONS'' s request w"

section \<open>Cookies, proxy and closing\<close>

definition sessionNil :: goerror where
  "sessionNil = ErrorString ''session or client is nil''"

definition client_GetCookies :: "URL option \<Rightarrow> world \<Rightarrow> Cookie option list \<times> world" where
  "client_GetCookies u w = (store w (trace w) u, emit (ClientGetCookies u) w)"

definition SetCookies ::
  "Session option \<Rightarrow> string \<Rightarrow> string \<Rightarrow> URL option \<Rightarrow> world \<Rightarrow> goerror option \<times> world" where
  "SetCookies s name value targetURL w =
     (if \<not> IsValid s then (Some sessionNil, w)
      else if TrimSpace name = [] then (Some (ErrorString ''cookie name cannot be empty''), w)
      else (case targetURL of
              None \<Rightarrow> (Some (ErrorString ''target URL cannot be nil''), w)
            | Some u \<Rightarrow>
                (None, emit (ClientSetCookies u
                   [Some \<lparr>Name = name, Value = value, MaxAge = 60 * 60 * 24 * 365, HttpOnly = True,
                          Secure = (Scheme u = ''https''), SameSite = SameSiteNoneMode\<rparr>]) w)))"

definition SetCookiesWithOptions ::
  "Session option \<Rightarrow> Cookie option \<Rightarrow> URL option \<Rightarrow> world \<Rightarrow> goerror option \<times> world" where
  "SetCookiesWithOptions s cookie targetURL w =
     (if \<not> IsValid s then (Some sessionNil, w)
      else (case cookie of
        None \<Rightarrow> (Some (ErrorString ''cookie cannot be nil''), w)
      | Some c \<Rightarrow>
          (case targetURL of
             None \<Rightarrow> (Some (ErrorString ''target URL cannot be nil''), w)
           | Some u \<Rightarrow>
               if TrimSpace (Name c) = [] then (Some (ErrorString ''cookie name cannot be empty''), w)
               else (None, emit (ClientSetCookies u [Some c]) w))))"

definition SetProxy :: "Session option \<Rightarrow> string \<Rightarrow> world \<Rightarrow> goerror option \<times> world" where
  "SetProxy s proxy w =
     (if \<not> IsValid s then (Some sessionNil, w)
      else if TrimSpace proxy = [] then (Some (ErrorString ''proxy URL cannot be empty''), w)
      else (case url_Parse proxy of
              Inl err \<Rightarrow> (Some (Errorf_w ''invalid proxy URL format: '' err), w)
            | Inr u \<Rightarrow> (None, emit (ClientSetProxy proxy) w)))"

definition ClearCookies :: "Session option \<Rightarrow> world \<Rightarrow> goerror option \<times> world" where
  "ClearCookies s w =
     (if \<not> IsValid s then (Some sessionNil, w)
      else if jarIsNil w then (Some (ErrorString ''failed to create new cookie jar''), emit NewCookieJar w)
      else (None, emit ClientSetCookieJar (emit NewCookieJar w)))"

definition GetCookies ::
  "Session option \<Rightarrow> URL option \<Rightarrow> world \<Rightarrow> (Cookie option list option \<times> goerror option) \<times> world" where
  "GetCookies s targetURL w =
     (if \<not> IsValid s then ((None, Some sessionNil), w)
      else (case client_GetCookies targetURL w of (cookies, w') \<Rightarrow>
        ((Some (filter (\<lambda>cookie. case cookie of None \<Rightarrow> False
                                  | Some c \<Rightarrow> TrimSpace (Name c) \<noteq> []) cookies), None), w')))"

definition GetCookie :: "Session option \<Rightarrow> string \<Rightarrow> URL option \<Rightarrow> world \<Rightarrow> Cookie option \<times> world" where
  "GetCookie s name targetURL w =
     (if \<not> IsValid s then (None, w)
      else if TrimSpace name = [] then (None, w)
      else (case client_GetCookies targetURL w of (cookies, w') \<Rightarrow>
        (case find (\<lambda>cookie. case cookie of None \<Rightarrow> False | Some c \<Rightarrow> Name c = name) cookies of
           Some cookie \<Rightarrow> (cookie, w')
         | None \<Rightarrow> (None, w'))))"

text \<open>\<open>Close\<close> sets \<open>s.Client\<close> to nil: the session is returned with the result.\<close>

definition Close :: "Session option \<Rightarrow> world \<Rightarrow> goerror option \<times> Session option \<times> world" where
  "Close s w =
     (case s of
        None \<Rightarrow> (None, s, w)
      | Some sess \<Rightarrow>
          if \<not> IsValid (Some sess) then (None, s, w)
          else (case ClearCookies s w of
                  (Some err, w') \<Rightarrow> (Some (Errorf_w ''error clearing cookies during close: '' err), s, w')
                | (None, w') \<Rightarrow> (None, Some (sess\<lparr>Client := None\<rparr>), w')))"

text \<open>The map \<open>GetSessionInfo\<close> returns: \<open>valid\<close> alone, or \<open>valid\<close> with the four settings.\<close>

datatype SessionInfo = InfoInvalid | InfoValid string string string int

definition GetSessionInfo :: "Session option \<Rightarrow> SessionInfo" where
  "GetSessionInfo s =
     (case s of
        None \<Rightarrow> InfoInvalid
      | Some sess \<Rightarrow>
          if \<not> IsValid (Some sess) then InfoInvalid
          else InfoValid (UserAgent sess) (SecChUa sess) (SecChUaPlatform sess) (MaxRetries sess))"

section \<open>Stub transports\<close>

text \<open>
  What \<open>Client.Do\<close> returned makes the attempt fail: \<open>Do\<close> returned an error, or reading the
  body did.
\<close>

definition attemptFails :: "string + HttpResponse \<Rightarrow> bool" where
  "attemptFails a = (case a of Inl e \<Rightarrow> True | Inr resp \<Rightarrow> isl (RespBody resp))"

definition stubSession :: "int \<Rightarrow> Session" where
  "stubSession n = \<lparr>Client = Some TlsClient, UserAgent = ''agent'', SecChUa = ''brand'',
                     SecChUaPlatform = ''platform'', MaxRetries = n\<rparr>"

definition okResponse :: HttpResponse where
  "okResponse = \<lparr>RespStatusCode = 200, RespHeader = Map.empty, RespCookies = [],
                  RespLocation = None, RespBody = Inr ''ok''\<rparr>"

definition stubWorld :: "(nat \<Rightarrow> string + HttpResponse) \<Rightarrow> world" where
  "stubWorld a = \<lparr>answers = a, store = (\<lambda>t u. []), jarIsNil = False,
                   entropy = (\<lambda>k i. CHR 0x00), writers = 0, trace = []\<rparr>"

definition stubURL :: URL where
  "stubURL = \<lparr>Scheme = ''http'', Rest = ''//h/'', ForceQuery = False, RawQuery = [], Fragment = []\<rparr>"

definition stubRequest :: Request where
  "stubRequest = \<lparr>Method = ''GET'', ReqURL = stubURL, Header = Map.empty, ReqReader = None\<rparr>"

definition plainOptions :: RequestOptions where
  "plainOptions = \<lparr>ReqUrl = ''http://h/'', ReqHeaders = None, ReqBody = BodyNil, Params = None\<rparr>"

section \<open>The retry loop\<close>

lemma answers_emit [simp]: "answers (emit e w) = answers w"
  by (simp add: emit_def)

lemma trace_emit [simp]: "trace (emit e w) = trace w @ [e]"
  by (simp add: emit_def)

lemma doCalls_emit [simp]: "doCalls (emit e w) = doCalls w + (if isDo e then 1 else 0)"
  by (simp add: doCalls_def)

lemma sleeps_emit [simp]: "sleeps (emit e w) = sleeps w + (if isSleep e then 1 else 0)"
  by (simp add: sleeps_def)

lemma handleResponse_Do_error:
  assumes "IsValid (Some s)" "formatHeaders s (ReqHeaders request) = Inr h"
    "answers w (doCalls w) = Inl e"
  shows "handleResponse (Some s) request req None w =
           (emptyResponse\<lparr>Error := ''Request error: '' @ e\<rparr>, emit (Do (req\<lparr>Header := h\<rparr>)) w)"
  using assms by (simp add: handleResponse_def client_Do_def)

lemma handleResponse_header_error:
  assumes "IsValid (Some s)" "formatHeaders s (ReqHeaders request) = Inl e"
  shows "handleResponse (Some s) request req None w =
           (emptyResponse\<lparr>Error := ''Error formatting headers: '' @ ErrorMsg e\<rparr>, w)"
  using assms by (simp add: handleResponse_def)

lemma handleResponse_shape:
  "handleResponse s request req err w = (r, w') \<Longrightarrow>
     Error r \<noteq> [] \<Longrightarrow> r = emptyResponse\<lparr>Error := Error r\<rparr>"
  by (auto simp: handleResponse_def client_Do_def emptyResponse_def Let_def
      split: option.splits sum.splits if_splits prod.splits)

lemma retryLoop_all_Do_fail:
  assumes "IsValid (Some s)" "formatHeaders s (ReqHeaders request) = Inr h"
    "\<forall>i. answers w i = Inl e" "attempt < maxRetries"
  shows "\<exists>w'. retryLoop s request req maxRetries attempt lastResponse w =
           (emptyResponse\<lparr>Error := ''max retries ('' @ Sprintf_d maxRetries @ '') exceeded: Request error: '' @ e\<rparr>, w')
         \<and> doCalls w' = doCalls w + nat (maxRetries - attempt)
         \<and> sleeps w' = sleeps w + nat (maxRetries - attempt - 1)"
  using assms
proof (induction "nat (maxRetries - attempt)" arbitrary: attempt lastResponse w)
  case 0
  then show ?case by simp
next
  case (Suc n)
  let ?w1 = "emit (Do (req\<lparr>Header := h\<rparr>)) w"
  have hr: "handleResponse (Some s) request req None w = (emptyResponse\<lparr>Error := ''Request error: '' @ e\<rparr>, ?w1)"
    using Suc.prems by (simp add: handleResponse_Do_error)
  show ?case
  proof (cases "attempt < maxRetries - 1")
    case True
    let ?w2 = "emit (Sleep (wrap64 (100000000 * (attempt + 1)))) ?w1"
    have n: "n = nat (maxRetries - (attempt + 1))" using Suc.hyps(2) by linarith
    have "\<forall>i. answers ?w2 i = Inl e" using Suc.prems by simp
    from Suc.hyps(1) [OF n Suc.prems(1,2) this, of "emptyResponse\<lparr>Error := ''Request error: '' @ e\<rparr>"] True
    obtain w' where w': "retryLoop s request req maxRetries (attempt + 1) (emptyResponse\<lparr>Error := ''Request error: '' @ e\<rparr>) ?w2 =
           (emptyResponse\<lparr>Error := ''max retries ('' @ Sprintf_d maxRetries @ '') exceeded: Request error: '' @ e\<rparr>, w')"
      "doCalls w' = doCalls ?w2 + nat (maxRetries - (attempt + 1))"
      "sleeps w' = sleeps ?w2 + nat (maxRetries - (attempt + 1) - 1)"
      by auto
    have a1: "nat (maxRetries - (attempt + 1)) + 1 = nat (maxRetries - attempt)"
      and a2: "Suc (nat (maxRetries - (attempt + 1) - 1)) = nat (maxRetries - attempt - 1)"
      using True by linarith+
    have "retryLoop s request req maxRetries attempt lastResponse w =
       retryLoop s request req maxRetries (attempt + 1) (emptyResponse\<lparr>Error := ''Request error: '' @ e\<rparr>) ?w2"
      by (subst retryLoop.simps) (use True Suc.prems(4) hr in \<open>simp add: emptyResponse_def\<close>)
    with w' a1 a2 show ?thesis by simp
  next
    case False
    then have last: "attempt + 1 = maxRetries" using Suc.prems(4) by simp
    have "retryLoop s request req maxRetries (attempt + 1) (emptyResponse\<lparr>Error := ''Request error: '' @ e\<rparr>) ?w1 =
       (emptyResponse\<lparr>Error := ''max retries ('' @ Sprintf_d maxRetries @ '') exceeded: Request error: '' @ e\<rparr>, ?w1)"
      by (subst retryLoop.simps) (simp add: last emptyResponse_def)
    then show ?thesis
      apply (subst retryLoop.simps)
      using False Suc.prems(4) hr last by (simp add: emptyResponse_def)
  qed
qed

lemma handleResponse_fails:
  assumes "IsValid (Some s)" "formatHeaders s (ReqHeaders request) = Inr h"
    "attemptFails (answers w (doCalls w))"
  shows "\<exists>m. m \<noteq> [] \<and> handleResponse (Some s) request req None w =
           (emptyResponse\<lparr>Error := m\<rparr>, emit (Do (req\<lparr>Header := h\<rparr>)) w)"
  using assms
  by (auto simp: handleResponse_def client_Do_def attemptFails_def isl_def split: sum.splits)

lemma handleResponse_succeeds:
  assumes "IsValid (Some s)" "formatHeaders s (ReqHeaders request) = Inr h"
    "answers w (doCalls w) = Inr resp" "RespBody resp = Inr body"
  shows "handleResponse (Some s) request req None w =
           (\<lparr>Url = Some (case RespLocation resp of Some location \<Rightarrow> location | None \<Rightarrow> ReqURL req),
             Body = Some body, StatusCode = RespStatusCode resp,
             Headers = Some (RespHeader resp), Cookies = Some (RespCookies resp), Error = []\<rparr>,
            emit (Do (req\<lparr>Header := h\<rparr>)) w)"
  using assms by (simp add: handleResponse_def client_Do_def)

lemma retryLoop_fail_then_succeed:
  assumes "IsValid (Some s)" "formatHeaders s (ReqHeaders request) = Inr h"
    "attempt + int N < maxRetries"
    "\<forall>i<N. attemptFails (answers w (doCalls w + i))"
    "answers w (doCalls w + N) = Inr resp" "RespBody resp = Inr body"
  shows "\<exists>w'. retryLoop s request req maxRetries attempt lastResponse w =
           (\<lparr>Url = Some (case RespLocation resp of Some location \<Rightarrow> location | None \<Rightarrow> ReqURL req),
             Body = Some body, StatusCode = RespStatusCode resp,
             Headers = Some (RespHeader resp), Cookies = Some (RespCookies resp), Error = []\<rparr>, w')
         \<and> doCalls w' = doCalls w + N + 1 \<and> sleeps w' = sleeps w + N"
  using assms
proof (induction N arbitrary: attempt lastResponse w)
  case 0
  then have "handleResponse (Some s) request req None w =
           (\<lparr>Url = Some (case RespLocation resp of Some location \<Rightarrow> location | None \<Rightarrow> ReqURL req),
             Body = Some body, StatusCode = RespStatusCode resp,
             Headers = Some (RespHeader resp), Cookies = Some (RespCookies resp), Error = []\<rparr>,
            emit (Do (req\<lparr>Header := h\<rparr>)) w)"
    by (simp add: handleResponse_succeeds)
  with 0 show ?case
    by (subst retryLoop.simps) simp
next
  case (Suc N)
  let ?w1 = "emit (Do (req\<lparr>Header := h\<rparr>)) w"
  let ?w2 = "emit (Sleep (wrap64 (100000000 * (attempt + 1)))) ?w1"
  from Suc.prems(4) have "attemptFails (answers w (doCalls w))" by force
  from handleResponse_fails [OF Suc.prems(1,2) this]
  obtain m where m: "m \<noteq> []"
    "handleResponse (Some s) request req None w = (emptyResponse\<lparr>Error := m\<rparr>, ?w1)"
    by blast
  have lt: "attempt < maxRetries - 1" "attempt < maxRetries" using Suc.prems(3) by simp_all
  have step: "retryLoop s request req maxRetries attempt lastResponse w =
      retryLoop s request req maxRetries (attempt + 1) (emptyResponse\<lparr>Error := m\<rparr>) ?w2"
    by (subst retryLoop.simps) (use m lt in simp)
  have d: "doCalls ?w2 = doCalls w + 1" by simp
  have "\<exists>w'. retryLoop s request req maxRetries (attempt + 1) (emptyResponse\<lparr>Error := m\<rparr>) ?w2 =
           (\<lparr>Url = Some (case RespLocation resp of Some location \<Rightarrow> location | None \<Rightarrow> ReqURL req),
             Body = Some body, StatusCode = RespStatusCode resp,
             Headers = Some (RespHeader resp), Cookies = Some (RespCookies resp), Error = []\<rparr>, w')
         \<and> doCalls w' = doCalls ?w2 + N + 1 \<and> sleeps w' = sleeps ?w2 + N"
  proof (rule Suc.IH [OF Suc.prems(1,2)])
    show "attempt + 1 + int N < maxRetries" using Suc.prems(3) by simp
    show "\<forall>i<N. attemptFails (answers ?w2 (doCalls ?w2 + i))"
      using Suc.prems(4) by (auto simp: d)
    show "answers ?w2 (doCalls ?w2 + N) = Inr resp" using Suc.prems(5) by (simp add: d)
    show "RespBody resp = Inr body" by fact
  qed
  then show ?case unfolding step by auto
qed

lemma retryLoop_success_exit:
  "retryLoop s request req maxRetries attempt lastResponse w = (r, w') \<Longrightarrow> Error r = [] \<Longrightarrow>
     \<exists>w0 w1. handleResponse (Some s) request req None w0 = (r, w1)"
proof (induction s request req maxRetries attempt lastResponse w rule: retryLoop.induct)
  case (1 s request req maxRetries attempt lastResponse w)
  show ?case
  proof (cases "attempt < maxRetries")
    case False
    with "1.prems" show ?thesis by (subst (asm) retryLoop.simps) auto
  next
    case True
    obtain resp w1 where hr: "handleResponse (Some s) request req None w = (resp, w1)"
      by (cases "handleResponse (Some s) request req None w")
    show ?thesis
    proof (cases "Error resp = []")
      case e: True
      with "1.prems"(1) True hr have "r = resp" by (subst (asm) retryLoop.simps) simp
      with hr show ?thesis by blast
    next
      case e: False
      from "1.prems"(1) True hr e
      have "retryLoop s request req maxRetries (attempt + 1) resp
                  (if attempt < maxRetries - 1
                   then emit (Sleep (wrap64 (100000000 * (attempt + 1)))) w1 else w1) = (r, w')"
        by (subst (asm) retryLoop.simps) simp
      from "1.IH" [OF True hr [symmetric] e this "1.prems"(2)] show ?thesis .
    qed
  qed
qed

lemma retryLoop_error_shape:
  "retryLoop s request req maxRetries attempt lastResponse w = (r, w') \<Longrightarrow> Error r \<noteq> [] \<Longrightarrow>
     lastResponse = emptyResponse\<lparr>Error := Error lastResponse\<rparr> \<Longrightarrow>
     r = emptyResponse\<lparr>Error := Error r\<rparr>"
proof (induction s request req maxRetries attempt lastResponse w rule: retryLoop.induct)
  case (1 s request req maxRetries attempt lastResponse w)
  show ?case
  proof (cases "attempt < maxRetries")
    case False
    with "1.prems"(1) have "r = lastResponse\<lparr>Error := Error r\<rparr>"
      by (subst (asm) retryLoop.simps) auto
    with "1.prems"(3) show ?thesis
      by (cases lastResponse) (simp add: emptyResponse_def)
  next
    case True
    obtain resp w1 where hr: "handleResponse (Some s) request req None w = (resp, w1)"
      by (cases "handleResponse (Some s) request req None w")
    show ?thesis
    proof (cases "Error resp = []")
      case e: True
      with "1.prems"(1) True hr have "r = resp" by (subst (asm) retryLoop.simps) simp
      with e "1.prems"(2) show ?thesis by simp
    next
      case e: False
      from "1.prems"(1) True hr e
      have "retryLoop s request req maxRetries (attempt + 1) resp
                  (if attempt < maxRetries - 1
                   then emit (Sleep (wrap64 (100000000 * (attempt + 1)))) w1 else w1) = (r, w')"
        by (subst (asm) retryLoop.simps) simp
      from "1.IH" [OF True hr [symmetric] e this "1.prems"(2) handleResponse_shape [OF hr e]]
      show ?thesis .
    qed
  qed
qed

section \<open>Closing a session\<close>

text \<open>
  Claim C10. \<open>Close\<close> on a session that is nil, or whose client is nil (already closed), returns
  nil, the success value, and changes nothing: the session is the same and no call leaves the
  wrapper.
\<close>

theorem Close_idempotent:
  assumes "\<not> IsValid s"
  shows "Close s w = (None, s, w)"
  using assms by (cases s) (simp_all add: Close_def)

theorem Close_idempotent_witness:
  "\<not> IsValid (Some ((stubSession 3)\<lparr>Client := None\<rparr>)) \<and>
   Close (Some ((stubSession 3)\<lparr>Client := None\<rparr>)) (stubWorld (\<lambda>i. Inl ''boom'')) =
     (None, Some ((stubSession 3)\<lparr>Client := None\<rparr>), stubWorld (\<lambda>i. Inl ''boom''))"
proof -
  have h: "\<not> IsValid (Some ((stubSession 3)\<lparr>Client := None\<rparr>))"
    by (simp add: IsValid_def)
  show ?thesis using h Close_idempotent [OF h] by simp
qed

section \<open>Claims about the retry loop\<close>

lemma IsValid_stubSession: "IsValid (Some (stubSession n))"
  by (simp add: IsValid_def stubSession_def)

lemma doCalls_stubWorld: "doCalls (stubWorld a) = 0"
  by (simp add: doCalls_def stubWorld_def)

lemma answers_stubWorld: "answers (stubWorld a) = a"
  by (simp add: stubWorld_def)

lemma formatHeaders_nil: "formatHeaders s None = Inr Map.empty"
  by (simp add: formatHeaders_def)

text \<open>
  Claim C1, as the code has it. With a valid session of retry budget 3, a header map that
  formats, and a transport whose \<open>Do\<close> always fails with the message \<open>boom\<close>, the error of the
  response is \<open>max retries (3) exceeded: Request error: boom\<close>: each attempt puts
  \<open>Request error: \<close> in front of the transport's message before the loop wraps it.
\<close>

theorem executeWithRetry_always_boom:
  assumes "IsValid (Some s)" "MaxRetries s = 3"
    "formatHeaders s (ReqHeaders request) = Inr h"
    "\<forall>i. answers w i = Inl ''boom''"
  shows "Error (fst (executeWithRetry s request req w)) =
           ''max retries (3) exceeded: Request error: boom''"
proof -
  from retryLoop_all_Do_fail [OF assms(1,3,4), of 0 3 req emptyResponse]
  obtain w' where "retryLoop s request req 3 0 emptyResponse w =
      (emptyResponse\<lparr>Error := ''max retries ('' @ Sprintf_d 3 @ '') exceeded: Request error: '' @ ''boom''\<rparr>, w')"
    by auto
  then show ?thesis
    by (simp add: executeWithRetry_def assms(2) Sprintf_d_def itoa.simps)
qed

theorem executeWithRetry_always_boom_witness:
  "IsValid (Some (stubSession 3)) \<and> MaxRetries (stubSession 3) = 3 \<and>
   formatHeaders (stubSession 3) (ReqHeaders plainOptions) = Inr Map.empty \<and>
   (\<forall>i. answers (stubWorld (\<lambda>i. Inl ''boom'')) i = Inl ''boom'') \<and>
   Error (fst (executeWithRetry (stubSession 3) plainOptions stubRequest (stubWorld (\<lambda>i. Inl ''boom'')))) =
     ''max retries (3) exceeded: Request error: boom''"
proof -
  have h1: "IsValid (Some (stubSession 3))" by (rule IsValid_stubSession)
  have h2: "MaxRetries (stubSession 3) = 3" by (simp add: stubSession_def)
  have h3: "formatHeaders (stubSession 3) (ReqHeaders plainOptions) = Inr Map.empty"
    by (simp add: plainOptions_def formatHeaders_nil)
  have h4: "\<forall>i. answers (stubWorld (\<lambda>i. Inl ''boom'')) i = Inl ''boom''"
    by (simp add: answers_stubWorld)
  from executeWithRetry_always_boom [OF h1 h2 h3 h4] h1 h2 h3 h4 show ?thesis by blast
qed

text \<open>
  The claim as the specification words it fails: for the stub session of budget 3 and the
  transport that always answers \<open>boom\<close>, the error is not \<open>max retries (3) exceeded: boom\<close>.
\<close>

theorem executeWithRetry_boom_counterexample:
  "Error (fst (executeWithRetry (stubSession 3) plainOptions stubRequest (stubWorld (\<lambda>i. Inl ''boom'')))) \<noteq>
     ''max retries (3) exceeded: boom''"
proof -
  have "\<forall>i. answers (stubWorld (\<lambda>i. Inl ''boom'')) i = Inl ''boom''"
    by (simp add: answers_stubWorld)
  from retryLoop_all_Do_fail [OF IsValid_stubSession _ this, of 3 plainOptions Map.empty 0 3 stubRequest emptyResponse]
  obtain w' where "retryLoop (stubSession 3) plainOptions stubRequest 3 0 emptyResponse (stubWorld (\<lambda>i. Inl ''boom'')) =
      (emptyResponse\<lparr>Error := ''max retries ('' @ Sprintf_d 3 @ '') exceeded: Request error: '' @ ''boom''\<rparr>, w')"
    by (auto simp: plainOptions_def formatHeaders_nil)
  then show ?thesis
    by (simp add: executeWithRetry_def stubSession_def Sprintf_d_def itoa.simps)
qed
lemma retryLoop_header_fail:
  assumes "IsValid (Some s)" "formatHeaders s (ReqHeaders request) = Inl e" "attempt < maxRetries"
  shows "\<exists>w'. retryLoop s request req maxRetries attempt lastResponse w =
           (emptyResponse\<lparr>Error := ''max retries ('' @ Sprintf_d maxRetries @
               '') exceeded: Error formatting headers: '' @ ErrorMsg e\<rparr>, w')
         \<and> doCalls w' = doCalls w
         \<and> sleeps w' = sleeps w + nat (maxRetries - attempt - 1)"
  using assms
proof (induction "nat (maxRetries - attempt)" arbitrary: attempt lastResponse w)
  case 0
  then show ?case by simp
next
  case (Suc n)
  let ?r = "emptyResponse\<lparr>Error := ''Error formatting headers: '' @ ErrorMsg e\<rparr>"
  have hr: "\<And>w. handleResponse (Some s) request req None w = (?r, w)"
    using Suc.prems by (simp add: handleResponse_header_error)
  show ?case
  proof (cases "attempt < maxRetries - 1")
    case True
    let ?w2 = "emit (Sleep (wrap64 (100000000 * (attempt + 1)))) w"
    have n: "n = nat (maxRetries - (attempt + 1))" using Suc.hyps(2) by linarith
    from Suc.hyps(1) [OF n Suc.prems(1,2), of ?r ?w2] True
    obtain w' where w': "retryLoop s request req maxRetries (attempt + 1) ?r ?w2 =
           (emptyResponse\<lparr>Error := ''max retries ('' @ Sprintf_d maxRetries @
               '') exceeded: Error formatting headers: '' @ ErrorMsg e\<rparr>, w')"
      "doCalls w' = doCalls ?w2"
      "sleeps w' = sleeps ?w2 + nat (maxRetries - (attempt + 1) - 1)"
      by auto
    have a2: "Suc (nat (maxRetries - (attempt + 1) - 1)) = nat (maxRetries - attempt - 1)"
      using True by linarith
    have "retryLoop s request req maxRetries attempt lastResponse w =
       retryLoop s request req maxRetries (attempt + 1) ?r ?w2"
      by (subst retryLoop.simps) (use True Suc.prems(3) hr in \<open>simp add: emptyResponse_def\<close>)
    with w' a2 show ?thesis by simp
  next
    case False
    then have last: "attempt + 1 = maxRetries" using Suc.prems(3) by simp
    have "retryLoop s request req maxRetries (attempt + 1) ?r w =
       (emptyResponse\<lparr>Error := ''max retries ('' @ Sprintf_d maxRetries @
               '') exceeded: Error formatting headers: '' @ ErrorMsg e\<rparr>, w)"
      by (subst retryLoop.simps) (simp add: last emptyResponse_def)
    then show ?thesis
      apply (subst retryLoop.simps)
      using False Suc.prems(3) hr last by (simp add: emptyResponse_def)
  qed
qed

lemma sleeps_stubWorld: "sleeps (stubWorld a) = 0"
  by (simp add: sleeps_def stubWorld_def)

lemma TrimSpace_stub_url: "TrimSpace ''http://h/'' = ''http://h/''"
  by code_simp

lemma url_Parse_stub_url: "url_Parse ''http://h/'' = Inr stubURL"
  by code_simp

lemma buildURL_stub_url: "buildURL ''http://h/'' None = Inr ''http://h/''"
  by code_simp

lemma TrimSpace_blank: "TrimSpace '' '' = []"
  by code_simp

lemma formatHeaders_blank_key:
  "formatHeaders s (Some [('' '', ''x'')]) = Inl (ErrorString ''header key cannot be empty'')"
  by (simp add: formatHeaders_def TrimSpace_blank)

lemma executeRequest_stub_url:
  "executeRequest method (Some (stubSession n)) (plainOptions\<lparr>ReqHeaders := hs\<rparr>) w =
     executeWithRetry (stubSession n) (plainOptions\<lparr>ReqHeaders := hs\<rparr>)
       (stubRequest\<lparr>Method := method\<rparr>) w"
  by (cases hs)
    (simp_all add: executeRequest_def IsValid_stubSession plainOptions_def
      TrimSpace_stub_url buildURL_stub_url formatBody_def http_NewRequest_def
      url_Parse_stub_url stubRequest_def updateContentType_def)

text \<open>
  Claim C2, evaluated on the code. A \<open>Get\<close> with the header map \<open>{" ": "x"}\<close> on a session of
  budget 3: the header map is formatted inside each attempt, so the failure is retried. The
  transport is never called, but the loop sleeps twice and the error comes back wrapped in
  \<open>max retries (3) exceeded\<close>.
\<close>

theorem blank_header_key_is_retried:
  "(case Get (Some (stubSession 3)) (plainOptions\<lparr>ReqHeaders := Some [('' '', ''x'')]\<rparr>)
           (stubWorld (\<lambda>i. Inr okResponse)) of
      (r, w') \<Rightarrow>
        Error r = ''max retries (3) exceeded: Error formatting headers: header key cannot be empty'' \<and>
        sleeps w' = 2 \<and> doCalls w' = 0)"
proof -
  let ?s = "stubSession 3"
  let ?request = "plainOptions\<lparr>ReqHeaders := Some [('' '', ''x'')]\<rparr>"
  let ?w = "stubWorld (\<lambda>i. Inr okResponse)"
  have run: "Get (Some ?s) ?request ?w = executeWithRetry ?s ?request stubRequest ?w"
    by (simp add: Get_def executeRequest_stub_url stubRequest_def)
  have "formatHeaders ?s (ReqHeaders ?request) = Inl (ErrorString ''header key cannot be empty'')"
    by (simp add: formatHeaders_blank_key)
  from retryLoop_header_fail [OF IsValid_stubSession this, of 0 3 stubRequest emptyResponse ?w]
  obtain w' where "retryLoop ?s ?request stubRequest 3 0 emptyResponse ?w =
      (emptyResponse\<lparr>Error := ''max retries ('' @ Sprintf_d 3 @
               '') exceeded: Error formatting headers: '' @ ''header key cannot be empty''\<rparr>, w')"
    "doCalls w' = 0" "sleeps w' = 2"
    by (auto simp: doCalls_stubWorld sleeps_stubWorld)
  then show ?thesis
    unfolding run
    by (simp add: executeWithRetry_def stubSession_def Sprintf_d_def itoa.simps)
qed
text \<open>
  Claim C3. If the header map formats and the retry budget is at least \<open>N + 1\<close>, and the
  transport makes the first \<open>N\<close> attempts fail and the next one succeed, then the loop returns
  the response of that attempt as \<open>handleResponse\<close> built it, with the empty error, after
  exactly \<open>N + 1\<close> calls of \<open>Client.Do\<close>. And a response with the empty error is always the
  response of an attempt: the exit after the last attempt wraps the error, which is then not
  empty.
\<close>

theorem executeWithRetry_fail_then_succeed:
  "(IsValid (Some s) \<and> formatHeaders s (ReqHeaders request) = Inr h \<and> int N + 1 \<le> MaxRetries s \<and>
    (\<forall>i<N. attemptFails (answers w (doCalls w + i))) \<and>
    answers w (doCalls w + N) = Inr resp \<and> RespBody resp = Inr body \<longrightarrow>
      fst (executeWithRetry s request req w) =
        \<lparr>Url = Some (case RespLocation resp of Some location \<Rightarrow> location | None \<Rightarrow> ReqURL req),
         Body = Some body, StatusCode = RespStatusCode resp, Headers = Some (RespHeader resp),
         Cookies = Some (RespCookies resp), Error = []\<rparr> \<and>
      doCalls (snd (executeWithRetry s request req w)) = doCalls w + N + 1) \<and>
   (Error (fst (executeWithRetry s request req w)) = [] \<longrightarrow>
      (\<exists>w0. fst (handleResponse (Some s) request req None w0) = fst (executeWithRetry s request req w)))"
proof (intro conjI impI)
  assume a: "IsValid (Some s) \<and> formatHeaders s (ReqHeaders request) = Inr h \<and>
    int N + 1 \<le> MaxRetries s \<and> (\<forall>i<N. attemptFails (answers w (doCalls w + i))) \<and>
    answers w (doCalls w + N) = Inr resp \<and> RespBody resp = Inr body"
  then have m: "(if MaxRetries s \<le> 0 then 1 else MaxRetries s) = MaxRetries s"
    and lt: "0 + int N < MaxRetries s" by auto
  from a retryLoop_fail_then_succeed [of s request h 0 N "MaxRetries s" w resp body req emptyResponse, OF _ _ lt]
  obtain w' where "retryLoop s request req (MaxRetries s) 0 emptyResponse w =
           (\<lparr>Url = Some (case RespLocation resp of Some location \<Rightarrow> location | None \<Rightarrow> ReqURL req),
             Body = Some body, StatusCode = RespStatusCode resp,
             Headers = Some (RespHeader resp), Cookies = Some (RespCookies resp), Error = []\<rparr>, w')"
    "doCalls w' = doCalls w + N + 1"
    by blast
  then show "fst (executeWithRetry s request req w) =
        \<lparr>Url = Some (case RespLocation resp of Some location \<Rightarrow> location | None \<Rightarrow> ReqURL req),
         Body = Some body, StatusCode = RespStatusCode resp, Headers = Some (RespHeader resp),
         Cookies = Some (RespCookies resp), Error = []\<rparr>"
    and "doCalls (snd (executeWithRetry s request req w)) = doCalls w + N + 1"
    by (simp_all add: executeWithRetry_def m)
next
  assume e: "Error (fst (executeWithRetry s request req w)) = []"
  obtain r w' where r: "executeWithRetry s request req w = (r, w')"
    by (cases "executeWithRetry s request req w")
  then have "retryLoop s request req (if MaxRetries s \<le> 0 then 1 else MaxRetries s) 0 emptyResponse w = (r, w')"
    by (simp add: executeWithRetry_def)
  from retryLoop_success_exit [OF this] e r
  obtain w0 w1 where "handleResponse (Some s) request req None w0 = (r, w1)" by auto
  then have "fst (handleResponse (Some s) request req None w0) = r" by simp
  with r show "\<exists>w0. fst (handleResponse (Some s) request req None w0) = fst (executeWithRetry s request req w)"
    by auto
qed

definition twiceBoomWorld :: world where
  "twiceBoomWorld = stubWorld (\<lambda>i. if i < 2 then Inl ''boom'' else Inr okResponse)"

theorem executeWithRetry_fail_then_succeed_witness:
  "IsValid (Some (stubSession 3)) \<and>
   formatHeaders (stubSession 3) (ReqHeaders plainOptions) = Inr Map.empty \<and>
   int 2 + 1 \<le> MaxRetries (stubSession 3) \<and>
   attemptFails (answers twiceBoomWorld (doCalls twiceBoomWorld + 0)) \<and>
   attemptFails (answers twiceBoomWorld (doCalls twiceBoomWorld + 1)) \<and>
   answers twiceBoomWorld (doCalls twiceBoomWorld + 2) = Inr okResponse \<and>
   RespBody okResponse = Inr ''ok'' \<and>
   fst (executeWithRetry (stubSession 3) plainOptions stubRequest twiceBoomWorld) =
     \<lparr>Url = Some stubURL, Body = Some ''ok'', StatusCode = 200, Headers = Some Map.empty,
      Cookies = Some [], Error = []\<rparr> \<and>
   doCalls (snd (executeWithRetry (stubSession 3) plainOptions stubRequest twiceBoomWorld)) = 3 \<and>
   Error (fst (executeWithRetry (stubSession 3) plainOptions stubRequest twiceBoomWorld)) = [] \<and>
   (\<exists>w0. fst (handleResponse (Some (stubSession 3)) plainOptions stubRequest None w0) =
          fst (executeWithRetry (stubSession 3) plainOptions stubRequest twiceBoomWorld))"
proof -
  have h1: "IsValid (Some (stubSession 3))" by (rule IsValid_stubSession)
  have h2: "formatHeaders (stubSession 3) (ReqHeaders plainOptions) = Inr Map.empty"
    by (simp add: plainOptions_def formatHeaders_nil)
  have h3: "int 2 + 1 \<le> MaxRetries (stubSession 3)" by (simp add: stubSession_def)
  have h4: "\<forall>i<2. attemptFails (answers twiceBoomWorld (doCalls twiceBoomWorld + i))"
    by (simp add: twiceBoomWorld_def answers_stubWorld doCalls_stubWorld attemptFails_def)
  have h5: "answers twiceBoomWorld (doCalls twiceBoomWorld + 2) = Inr okResponse"
    by (simp add: twiceBoomWorld_def answers_stubWorld doCalls_stubWorld)
  have h6: "RespBody okResponse = Inr ''ok''" by (simp add: okResponse_def)
  have d: "doCalls twiceBoomWorld = 0" by (simp add: twiceBoomWorld_def doCalls_stubWorld)
  note t = executeWithRetry_fail_then_succeed [of "stubSession 3" plainOptions Map.empty 2
      twiceBoomWorld okResponse "''ok''" stubRequest]
  from t h1 h2 h3 h4 h5 h6
  have r: "fst (executeWithRetry (stubSession 3) plainOptions stubRequest twiceBoomWorld) =
     \<lparr>Url = Some stubURL, Body = Some ''ok'', StatusCode = 200, Headers = Some Map.empty,
      Cookies = Some [], Error = []\<rparr>"
    and c: "doCalls (snd (executeWithRetry (stubSession 3) plainOptions stubRequest twiceBoomWorld)) = 3"
    by (simp_all add: okResponse_def stubRequest_def d)
  from r have e: "Error (fst (executeWithRetry (stubSession 3) plainOptions stubRequest twiceBoomWorld)) = []"
    by simp
  with t have "\<exists>w0. fst (handleResponse (Some (stubSession 3)) plainOptions stubRequest None w0) =
          fst (executeWithRetry (stubSession 3) plainOptions stubRequest twiceBoomWorld)"
    by blast
  moreover have "attemptFails (answers twiceBoomWorld (doCalls twiceBoomWorld + 0))"
    "attemptFails (answers twiceBoomWorld (doCalls twiceBoomWorld + 1))"
    by (simp_all add: twiceBoomWorld_def answers_stubWorld doCalls_stubWorld attemptFails_def)
  ultimately show ?thesis using h1 h2 h3 h5 h6 r c e by blast
qed

section \<open>Error and status\<close>

lemma executeRequest_error_shape:
  assumes "executeRequest method s request w = (r, w')" "Error r \<noteq> []"
  shows "r = emptyResponse\<lparr>Error := Error r\<rparr>"
proof -
  have retry: "r = emptyResponse\<lparr>Error := Error r\<rparr>"
    if "executeWithRetry sess rq req w0 = (r, w')" for sess rq req w0
  proof -
    from that
    have "retryLoop sess rq req (if MaxRetries sess \<le> 0 then 1 else MaxRetries sess) 0 emptyResponse w0 = (r, w')"
      by (simp add: executeWithRetry_def)
    from retryLoop_error_shape [OF this assms(2)] show ?thesis by (simp add: emptyResponse_def)
  qed
  from assms(1) show ?thesis
    unfolding executeRequest_def
    by (auto split: option.splits if_splits sum.splits prod.splits dest: retry)
qed

text \<open>
  Claim C4. Whatever response one of the seven request methods returns, if its error is not
  empty then its status code is 0 and its body is nil (with the URL, the headers and the
  cookies nil as well).
\<close>

theorem error_excludes_status_and_body:
  assumes "op \<in> set [Get, Post, Put, Delete, Patch, Head, Options]"
    "Error (fst (op s request w)) \<noteq> []"
  shows "StatusCode (fst (op s request w)) = 0 \<and> Body (fst (op s request w)) = None \<and>
         fst (op s request w) = emptyResponse\<lparr>Error := Error (fst (op s request w))\<rparr>"
proof -
  from assms(1) obtain verb where op: "op = executeRequest verb"
    by (auto simp: Get_def Post_def Put_def Delete_def Patch_def Head_def Options_def fun_eq_iff)
  obtain r w' where r: "executeRequest verb s request w = (r, w')"
    by (cases "executeRequest verb s request w")
  from executeRequest_error_shape [OF r] assms(2) op r
  have "r = emptyResponse\<lparr>Error := Error r\<rparr>" by simp
  then have "StatusCode r = 0 \<and> Body r = None"
    by (metis Response.select_convs(2,3) Response.update_convs(6) emptyResponse_def)
  with \<open>r = emptyResponse\<lparr>Error := Error r\<rparr>\<close> op r show ?thesis by simp
qed

theorem error_excludes_status_and_body_witness:
  "Get \<in> set [Get, Post, Put, Delete, Patch, Head, Options] \<and>
   Error (fst (Get (Some (stubSession 3)) plainOptions (stubWorld (\<lambda>i. Inl ''boom'')))) \<noteq> [] \<and>
   StatusCode (fst (Get (Some (stubSession 3)) plainOptions (stubWorld (\<lambda>i. Inl ''boom'')))) = 0 \<and>
   Body (fst (Get (Some (stubSession 3)) plainOptions (stubWorld (\<lambda>i. Inl ''boom'')))) = None"
proof -
  let ?w = "stubWorld (\<lambda>i. Inl ''boom'')"
  have h1: "Get \<in> set [Get, Post, Put, Delete, Patch, Head, Options]" by simp
  have run: "Get (Some (stubSession 3)) plainOptions ?w =
      executeWithRetry (stubSession 3) plainOptions stubRequest ?w"
    using executeRequest_stub_url [of "''GET''" 3 None ?w]
    by (simp add: Get_def plainOptions_def stubRequest_def)
  have "\<forall>i. answers ?w i = Inl ''boom''" by (simp add: answers_stubWorld)
  from retryLoop_all_Do_fail [OF IsValid_stubSession _ this, of 3 plainOptions Map.empty 0 3 stubRequest emptyResponse]
  obtain w' where "retryLoop (stubSession 3) plainOptions stubRequest 3 0 emptyResponse ?w =
      (emptyResponse\<lparr>Error := ''max retries ('' @ Sprintf_d 3 @ '') exceeded: Request error: '' @ ''boom''\<rparr>, w')"
    by (auto simp: plainOptions_def formatHeaders_nil)
  then have h2: "Error (fst (Get (Some (stubSession 3)) plainOptions ?w)) \<noteq> []"
    unfolding run by (simp add: executeWithRetry_def stubSession_def)
  from error_excludes_status_and_body [OF h1 h2] h1 h2 show ?thesis by blast
qed

text \<open>
  Claim C9. After a \<open>Close\<close> that returned nil, the session is not valid, and from then on, in
  any state of the world: each of the seven request methods returns the empty response with
  the error \<open>session or client is nil\<close>; \<open>SetCookies\<close>, \<open>SetCookiesWithOptions\<close>, \<open>SetProxy\<close>
  and \<open>ClearCookies\<close> return that error; \<open>GetCookies\<close> returns nil and that error;
  \<open>GetCookie\<close>, which has no error result, returns nil; \<open>GetSessionInfo\<close> reports the session
  as not valid. In each case the world is returned as it was: no call on the client, the
  cookie store, the proxy or the network is made.
\<close>

theorem after_Close_invalid_session:
  assumes "Close s w = (None, s', w')"
  shows "\<not> IsValid s' \<and>
    (\<forall>op \<in> set [Get, Post, Put, Delete, Patch, Head, Options].
       op s' request w2 = (emptyResponse\<lparr>Error := ''session or client is nil''\<rparr>, w2)) \<and>
    SetCookies s' name value targetURL w2 = (Some (ErrorString ''session or client is nil''), w2) \<and>
    SetCookiesWithOptions s' cookie targetURL w2 = (Some (ErrorString ''session or client is nil''), w2) \<and>
    SetProxy s' proxy w2 = (Some (ErrorString ''session or client is nil''), w2) \<and>
    ClearCookies s' w2 = (Some (ErrorString ''session or client is nil''), w2) \<and>
    GetCookies s' targetURL w2 = ((None, Some (ErrorString ''session or client is nil'')), w2) \<and>
    GetCookie s' name targetURL w2 = (None, w2) \<and>
    GetSessionInfo s' = InfoInvalid"
proof -
  from assms have inv: "\<not> IsValid s'"
    by (auto simp: Close_def IsValid_def ClearCookies_def split: option.splits if_splits)
  then have req: "executeRequest verb s' request w2 =
      (emptyResponse\<lparr>Error := ''session or client is nil''\<rparr>, w2)" for verb
    by (cases s') (simp_all add: executeRequest_def)
  from inv have "GetSessionInfo s' = InfoInvalid"
    by (cases s') (simp_all add: GetSessionInfo_def)
  with inv req show ?thesis
    by (simp add: Get_def Post_def Put_def Delete_def Patch_def Head_def Options_def
        SetCookies_def SetCookiesWithOptions_def SetProxy_def ClearCookies_def GetCookies_def
        GetCookie_def sessionNil_def)
qed

theorem after_Close_invalid_session_witness:
  "Close (Some (stubSession 3)) (stubWorld (\<lambda>i. Inr okResponse)) =
     (None, Some ((stubSession 3)\<lparr>Client := None\<rparr>),
      emit ClientSetCookieJar (emit NewCookieJar (stubWorld (\<lambda>i. Inr okResponse)))) \<and>
   \<not> IsValid (Some ((stubSession 3)\<lparr>Client := None\<rparr>)) \<and>
   Get (Some ((stubSession 3)\<lparr>Client := None\<rparr>)) plainOptions (stubWorld (\<lambda>i. Inr okResponse)) =
     (emptyResponse\<lparr>Error := ''session or client is nil''\<rparr>, stubWorld (\<lambda>i. Inr okResponse)) \<and>
   SetProxy (Some ((stubSession 3)\<lparr>Client := None\<rparr>)) ''http://proxy:8080'' (stubWorld (\<lambda>i. Inr okResponse)) =
     (Some (ErrorString ''session or client is nil''), stubWorld (\<lambda>i. Inr okResponse)) \<and>
   GetCookie (Some ((stubSession 3)\<lparr>Client := None\<rparr>)) ''sid'' None (stubWorld (\<lambda>i. Inr okResponse)) =
     (None, stubWorld (\<lambda>i. Inr okResponse))"
proof -
  let ?w = "stubWorld (\<lambda>i. Inr okResponse)"
  have h: "Close (Some (stubSession 3)) ?w =
     (None, Some ((stubSession 3)\<lparr>Client := None\<rparr>), emit ClientSetCookieJar (emit NewCookieJar ?w))"
    by (simp add: Close_def ClearCookies_def IsValid_stubSession stubWorld_def emit_def)
  from after_Close_invalid_session [OF h, where request = plainOptions and ?w2.0 = ?w
      and name = "''sid''" and targetURL = None and proxy = "''http://proxy:8080''"] h
  show ?thesis by simp
qed

section \<open>Formatting the headers\<close>

lemma formatHeadersLoop_blank:
  "list_ex (\<lambda>(k, v). TrimSpace k = []) hs \<Longrightarrow>
     formatHeadersLoop s hs fh order = Inl (ErrorString ''header key cannot be empty'')"
  by (induction hs arbitrary: fh order) auto

lemma formatHeadersLoop_ok:
  "\<not> list_ex (\<lambda>(k, v). TrimSpace k = []) hs \<Longrightarrow>
     formatHeadersLoop s hs fh order =
       Inr (fold (\<lambda>(k, v) m. m(k \<mapsto> [applyDefaults s k v])) hs fh, order @ map fst hs)"
  by (induction hs arbitrary: fh order) auto

lemma fold_header_other:
  "k \<notin> fst ` set hs \<Longrightarrow> fold (\<lambda>(k, v) m. m(k \<mapsto> [f k v])) hs fh k = fh k"
  by (induction hs arbitrary: fh) auto

lemma fold_header_entry:
  "distinct (map fst hs) \<Longrightarrow> (k, v) \<in> set hs \<Longrightarrow>
     fold (\<lambda>(k, v) m. m(k \<mapsto> [f k v])) hs fh k = Some [f k v]"
proof (induction hs arbitrary: fh)
  case Nil
  then show ?case by simp
next
  case (Cons a hs)
  obtain k' v' where a: "a = (k', v')" by (cases a)
  show ?case
  proof (cases "(k, v) = a")
    case True
    with Cons.prems a have "k \<notin> fst ` set hs" by auto
    from fold_header_other [OF this, of f "fh(k \<mapsto> [f k v])"]
    have "fold (\<lambda>(k, v) m. m(k \<mapsto> [f k v])) hs (fh(k \<mapsto> [f k v])) k = Some [f k v]"
      by simp
    moreover have "fold (\<lambda>(k, v) m. m(k \<mapsto> [f k v])) (a # hs) fh =
        fold (\<lambda>(k, v) m. m(k \<mapsto> [f k v])) hs (fh(k \<mapsto> [f k v]))"
      using True [symmetric] by (simp del: fun_upd_apply)
    ultimately show ?thesis by (simp only:)
  next
    case False
    with Cons a show ?thesis by auto
  qed
qed

text \<open>
  Claim C6, as the code has it. For a header map none of whose keys is blank,
  \<open>formatHeaders\<close> succeeds, and for every entry whose key is not the transport's order key
  \<open>Header-Order:\<close> the output holds, under the key as the caller wrote it, one value: the
  session's default for that header if the key is \<open>user-agent\<close>, \<open>sec-ch-ua\<close> or
  \<open>sec-ch-ua-platform\<close> in lower case and the value is empty or \<open>default\<close>, and the caller's
  value otherwise.
\<close>

theorem formatHeaders_defaults:
  assumes "distinct (map fst hs)" "\<not> list_ex (\<lambda>(k, v). TrimSpace k = []) hs"
    "(k, v) \<in> set hs" "k \<noteq> HeaderOrderKey"
  shows "\<exists>out. formatHeaders s (Some hs) = Inr out \<and>
     out k = Some [if (v = [] \<or> v = ''default'') \<and> ToLower k = ''user-agent'' then UserAgent s
                   else if (v = [] \<or> v = ''default'') \<and> ToLower k = ''sec-ch-ua'' then SecChUa s
                   else if (v = [] \<or> v = ''default'') \<and> ToLower k = ''sec-ch-ua-platform''
                   then SecChUaPlatform s
                   else v]"
proof -
  have "fold (\<lambda>(k, v) m. m(k \<mapsto> [applyDefaults s k v])) hs Map.empty k = Some [applyDefaults s k v]"
    by (rule fold_header_entry [OF assms(1,3)])
  with assms(2,4) show ?thesis
    by (simp add: formatHeaders_def formatHeadersLoop_ok applyDefaults_def Let_def)
qed

lemma TrimSpace_User_Agent: "TrimSpace ''User-Agent'' = ''User-Agent''"
  by code_simp

lemma TrimSpace_Accept: "TrimSpace ''Accept'' = ''Accept''"
  by code_simp

lemma ToLower_User_Agent: "ToLower ''User-Agent'' = ''user-agent''"
  by code_simp

theorem formatHeaders_defaults_witness:
  "distinct (map fst [(''User-Agent'', ''default''), (''Accept'', ''text/html'')]) \<and>
   \<not> list_ex (\<lambda>(k, v). TrimSpace k = []) [(''User-Agent'', ''default''), (''Accept'', ''text/html'')] \<and>
   (''User-Agent'', ''default'') \<in> set [(''User-Agent'', ''default''), (''Accept'', ''text/html'')] \<and>
   ''User-Agent'' \<noteq> HeaderOrderKey \<and>
   (\<exists>out. formatHeaders (stubSession 3)
             (Some [(''User-Agent'', ''default''), (''Accept'', ''text/html'')]) = Inr out \<and>
          out ''User-Agent'' = Some [''agent''])"
proof -
  let ?hs = "[(''User-Agent'', ''default''), (''Accept'', ''text/html'')]"
  have h1: "distinct (map fst ?hs)" by simp
  have h2: "\<not> list_ex (\<lambda>(k, v). TrimSpace k = []) ?hs"
    by (simp add: TrimSpace_User_Agent TrimSpace_Accept)
  have h3: "(''User-Agent'', ''default'') \<in> set ?hs" by simp
  have h4: "''User-Agent'' \<noteq> HeaderOrderKey" by (simp add: HeaderOrderKey_def)
  from formatHeaders_defaults [OF h1 h2 h3 h4, of "stubSession 3"]
  have "\<exists>out. formatHeaders (stubSession 3) (Some ?hs) = Inr out \<and> out ''User-Agent'' = Some [''agent'']"
    by (simp add: ToLower_User_Agent stubSession_def)
  with h1 h2 h3 h4 show ?thesis by blast
qed

lemma TrimSpace_Header_Order: "TrimSpace ''Header-Order:'' = ''Header-Order:''"
  by code_simp

text \<open>
  The claim as the specification words it (every other key passes through) fails at the key
  \<open>Header-Order:\<close>: what the caller bound to it is overwritten by the list of the keys.
\<close>

theorem formatHeaders_order_key_counterexample:
  "(case formatHeaders (stubSession 3) (Some [(''Header-Order:'', ''x'')]) of
      Inl e \<Rightarrow> False
    | Inr out \<Rightarrow> out ''Header-Order:'' = Some [''Header-Order:''] \<and> out ''Header-Order:'' \<noteq> Some [''x''])"
  by (simp add: formatHeaders_def TrimSpace_Header_Order HeaderOrderKey_def)

section \<open>The content type of a multipart body\<close>

definition zeroBoundary :: string where
  "zeroBoundary = replicate 60 (CHR ''0'')"

lemma randomBoundary_zero: "randomBoundary (\<lambda>i. CHR 0x00) = zeroBoundary"
  by code_simp

lemma FormDataContentType_zero:
  "FormDataContentType zeroBoundary = ''multipart/form-data; boundary='' @ zeroBoundary"
  by code_simp

lemma resolve_declared_multipart:
  "resolveContentType (Some [(''Content-Type'', ''multipart/form-data'')]) (BodyStringMap m) =
     ''multipart/form-data''"
proof -
  have "ToLower ''Content-Type'' = ''content-type''" by code_simp
  moreover have "ToLower (TrimSpace ''multipart/form-data'') = ''multipart/form-data''" by code_simp
  ultimately show ?thesis by (simp add: resolveContentType_def)
qed

lemma Contains_multipart_literal:
  "\<not> Contains ''multipart/form-data'' ''application/x-www-form-urlencoded''"
  "\<not> Contains ''multipart/form-data'' ''text/plain''"
  "Contains ''multipart/form-data'' ''multipart/form-data''"
  by code_simp+

lemma Contains_zero_boundary:
  "Contains (''multipart/form-data; boundary='' @ zeroBoundary) ''multipart/form-data''"
  by code_simp

lemma TrimSpace_content_type_keys:
  "TrimSpace ''Content-Type'' = ''Content-Type''" "TrimSpace ''content-type'' = ''content-type''"
  by code_simp+

lemma applyDefaults_content_type:
  "applyDefaults s ''Content-Type'' v = v" "applyDefaults s ''content-type'' v = v"
proof -
  have "ToLower ''Content-Type'' = ''content-type''" "ToLower ''content-type'' = ''content-type''"
    by code_simp+
  then show "applyDefaults s ''Content-Type'' v = v" "applyDefaults s ''content-type'' v = v"
    by (simp_all add: applyDefaults_def)
qed

lemma formatBody_stub_multipart:
  "formatBody (Some [(''Content-Type'', ''multipart/form-data'')]) (BodyStringMap m)
       (stubWorld a) =
     (Inr (Some (MultipartBuffer zeroBoundary m), ''multipart/form-data; boundary='' @ zeroBoundary),
      (stubWorld a)\<lparr>writers := 1\<rparr>)"
  by (simp add: formatBody_def resolve_declared_multipart Contains_multipart_literal
      formatMultipartFormData_def NewWriter_def stubWorld_def randomBoundary_zero
      FormDataContentType_zero del: Contains.simps)

lemma retryLoop_first_success:
  "handleResponse (Some s) request req None w = (r, w') \<Longrightarrow> Error r = [] \<Longrightarrow>
     attempt < maxRetries \<Longrightarrow> retryLoop s request req maxRetries attempt lastResponse w = (r, w')"
  by (subst retryLoop.simps) simp

lemma executeWithRetry_stubSession:
  "0 < n \<Longrightarrow> executeWithRetry (stubSession n) request req w =
     retryLoop (stubSession n) request req n 0 emptyResponse w"
  by (simp add: executeWithRetry_def stubSession_def)

text \<open>
  Claim C7, evaluated on the code. A \<open>Post\<close> whose header map declares
  \<open>Content-Type: multipart/form-data\<close> and whose body is a map of strings: the executor writes
  the generated content type under the key \<open>content-type\<close>, so the caller's entry
  \<open>Content-Type\<close> keeps its value without boundary, the map has both entries, and both are on
  the request handed to \<open>Client.Do\<close>.
\<close>

theorem multipart_declared_content_type_kept:
  "updateContentType (''multipart/form-data; boundary='' @ zeroBoundary)
      (Some [(''Content-Type'', ''multipart/form-data'')]) =
     Some [(''Content-Type'', ''multipart/form-data''),
           (''content-type'', ''multipart/form-data; boundary='' @ zeroBoundary)] \<and>
   (case trace (snd (Post (Some (stubSession 3))
            \<lparr>ReqUrl = ''http://h/'', ReqHeaders = Some [(''Content-Type'', ''multipart/form-data'')],
             ReqBody = BodyStringMap [(''a'', ''b'')], Params = None\<rparr>
            (stubWorld (\<lambda>i. Inr okResponse)))) of
      [Do req] \<Rightarrow>
        Header req ''Content-Type'' = Some [''multipart/form-data''] \<and>
        Header req ''content-type'' = Some [''multipart/form-data; boundary='' @ zeroBoundary]
    | _ \<Rightarrow> False)"
proof
  show "updateContentType (''multipart/form-data; boundary='' @ zeroBoundary)
      (Some [(''Content-Type'', ''multipart/form-data'')]) =
     Some [(''Content-Type'', ''multipart/form-data''),
           (''content-type'', ''multipart/form-data; boundary='' @ zeroBoundary)]"
    using Contains_zero_boundary by (simp add: updateContentType_def)
next
  let ?hs = "[(''Content-Type'', ''multipart/form-data'')]"
  let ?ct = "''multipart/form-data; boundary='' @ zeroBoundary"
  let ?hs' = "[(''Content-Type'', ''multipart/form-data''), (''content-type'', ?ct)]"
  let ?request = "\<lparr>ReqUrl = ''http://h/'', ReqHeaders = Some ?hs,
             ReqBody = BodyStringMap [(''a'', ''b'')], Params = None\<rparr>"
  let ?w = "stubWorld (\<lambda>i. Inr okResponse)"
  let ?w1 = "?w\<lparr>writers := 1\<rparr>"
  let ?req = "\<lparr>Method = ''POST'', ReqURL = stubURL, Header = Map.empty,
               ReqReader = Some (MultipartBuffer zeroBoundary [(''a'', ''b'')])\<rparr>"
  have fb: "formatBody (Some ?hs) (BodyStringMap [(''a'', ''b'')]) ?w =
      (Inr (Some (MultipartBuffer zeroBoundary [(''a'', ''b'')]), ?ct), ?w1)"
    by (rule formatBody_stub_multipart)
  have up: "updateContentType ?ct (Some ?hs) = Some ?hs'"
    using Contains_zero_boundary by (simp add: updateContentType_def)
  have run: "Post (Some (stubSession 3)) ?request ?w =
      executeWithRetry (stubSession 3) (?request\<lparr>ReqHeaders := Some ?hs'\<rparr>) ?req ?w1"
    by (simp add: Post_def executeRequest_def IsValid_stubSession TrimSpace_stub_url
        buildURL_stub_url fb up [simplified] http_NewRequest_def url_Parse_stub_url del: Contains.simps)
  have fh: "formatHeaders (stubSession 3) (Some ?hs') =
      Inr ((Map.empty(''Content-Type'' \<mapsto> [''multipart/form-data''], ''content-type'' \<mapsto> [?ct]))
            (HeaderOrderKey \<mapsto> [''Content-Type'', ''content-type'']))"
    by (simp add: formatHeaders_def TrimSpace_content_type_keys applyDefaults_content_type)
  have a: "answers ?w1 (doCalls ?w1) = Inr okResponse"
    by (simp add: stubWorld_def doCalls_def)
  have hr: "handleResponse (Some (stubSession 3)) (?request\<lparr>ReqHeaders := Some ?hs'\<rparr>) ?req None ?w1 =
      (\<lparr>Url = Some stubURL, Body = Some ''ok'', StatusCode = 200, Headers = Some Map.empty,
        Cookies = Some [], Error = []\<rparr>,
       emit (Do (?req\<lparr>Header := (Map.empty(''Content-Type'' \<mapsto> [''multipart/form-data''],
            ''content-type'' \<mapsto> [?ct]))(HeaderOrderKey \<mapsto> [''Content-Type'', ''content-type''])\<rparr>)) ?w1)"
    using handleResponse_succeeds [OF IsValid_stubSession _ a, where
        request = "?request\<lparr>ReqHeaders := Some ?hs'\<rparr>" and body = "''ok''" and req = ?req] fh
    by (simp add: okResponse_def)
  have "executeWithRetry (stubSession 3) (?request\<lparr>ReqHeaders := Some ?hs'\<rparr>) ?req ?w1 =
      (\<lparr>Url = Some stubURL, Body = Some ''ok'', StatusCode = 200, Headers = Some Map.empty,
        Cookies = Some [], Error = []\<rparr>,
       emit (Do (?req\<lparr>Header := (Map.empty(''Content-Type'' \<mapsto> [''multipart/form-data''],
            ''content-type'' \<mapsto> [?ct]))(HeaderOrderKey \<mapsto> [''Content-Type'', ''content-type''])\<rparr>)) ?w1)"
    using retryLoop_first_success [OF hr, of 0 3 emptyResponse]
    by (simp add: executeWithRetry_stubSession)
  then show "case trace (snd (Post (Some (stubSession 3)) ?request ?w)) of
      [Do req] \<Rightarrow>
        Header req ''Content-Type'' = Some [''multipart/form-data''] \<and>
        Header req ''content-type'' = Some [?ct]
    | _ \<Rightarrow> False"
    unfolding run by (simp add: stubWorld_def HeaderOrderKey_def)
qed

section \<open>The content type and the encoder branch\<close>

lemma formatBody_by_branch:
  "formatBody headers body w =
     (case bodyBranch headers body of
        NoBody \<Rightarrow> (Inr (None, []), w)
      | FormURLEncoded \<Rightarrow> (formatFormURLEncoded body, w)
      | TextPlain \<Rightarrow> (formatTextPlain body, w)
      | MultipartFormData \<Rightarrow> formatMultipartFormData body w
      | JSON \<Rightarrow> (formatJSON body, w))"
  by (simp add: formatBody_def bodyBranch_def Let_def)

lemma Contains_subset: "Contains s sub \<Longrightarrow> set sub \<subseteq> set s"
proof (induction s)
  case Nil
  then show ?case by simp
next
  case (Cons a s)
  from Cons.prems have "prefix sub (a # s) \<or> Contains s sub" by simp
  then show ?case
  proof
    assume "prefix sub (a # s)"
    then show ?thesis by (rule set_mono_prefix)
  next
    assume "Contains s sub"
    with Cons.IH show ?thesis by auto
  qed
qed

lemma Contains_prefix: "prefix sub s \<Longrightarrow> Contains s sub"
  by (cases s) auto

lemma of_char_less_256: "(of_char c :: nat) < 256"
proof -
  have "(of_char c :: nat) mod 256 = of_char c" by (rule of_char_mod_256)
  moreover have "(of_char c :: nat) mod 256 < 256" by simp
  ultimately show ?thesis by simp
qed

lemma set_hexByte: "set (hexByte c) \<subseteq> set lowerhex"
proof -
  have "(of_char c :: nat) < 256" by (rule of_char_less_256)
  then have "of_char c div 16 < (16 :: nat)" "of_char c mod 16 < (16 :: nat)" by arith+
  moreover have "length lowerhex = 16" by (simp add: lowerhex_def)
  ultimately have "lowerhex ! (of_char c div 16) \<in> set lowerhex"
    "lowerhex ! (of_char c mod 16) \<in> set lowerhex"
    by (simp_all only: nth_mem)
  then show ?thesis by (simp add: hexByte_def)
qed

lemma set_randomBoundary: "set (randomBoundary buf) \<subseteq> set lowerhex"
  using set_hexByte by (auto simp: randomBoundary_def)

lemma randomBoundary_nonempty: "randomBoundary buf \<noteq> []"
  by (simp add: randomBoundary_def hexByte_def upt_rec [of 0 30])

lemma FormDataContentType_hex:
  "set b \<subseteq> set lowerhex \<Longrightarrow> FormDataContentType b = ''multipart/form-data; boundary='' @ b"
proof -
  assume "set b \<subseteq> set lowerhex"
  then have "\<not> list_ex (\<lambda>c. c \<in> set (''()<>@,;:/[]?= '' @ [CHR 0x5C, CHR 0x22])) b"
    by (auto simp: list_ex_iff lowerhex_def)
  then show ?thesis by (simp add: FormDataContentType_def)
qed


lemma ToLower_id:
  "list_all (\<lambda>c. lowerASCII c = c \<and> c \<noteq> CHR 0xE2 \<and> c \<noteq> CHR 0xC4) s \<Longrightarrow> ToLower s = s"
  by (induction s rule: ToLower.induct) (auto simp: ToLower.simps)

lemma leadingSpace_m: "leadingSpace (CHR ''m'' # s) = 0"
  by (simp add: leadingSpace_def spaceRunes_def)

lemma spaceRunes_last: "list_all (\<lambda>p. p \<noteq> [] \<and> last p \<notin> set lowerhex) spaceRunes"
  by code_simp

lemma trailingSpace_hex:
  assumes "s \<noteq> []" "last s \<in> set lowerhex"
  shows "trailingSpace s = 0"
proof -
  have "\<not> suffix p s" if "p \<in> set spaceRunes" for p
  proof
    assume "suffix p s"
    then obtain zs where s: "s = zs @ p" by (auto simp: suffix_def)
    from that spaceRunes_last have p: "p \<noteq> []" "last p \<notin> set lowerhex"
      by (auto simp: list_all_iff)
    with s have "last s = last p" by simp
    with p assms show False by simp
  qed
  then have "find (\<lambda>p. suffix p s) spaceRunes = None"
    by (simp add: find_None_iff)
  then show ?thesis by (simp add: trailingSpace_def)
qed

lemma multipart_chars:
  "list_all (\<lambda>c. lowerASCII c = c \<and> c \<noteq> CHR 0xE2 \<and> c \<noteq> CHR 0xC4 \<and> c \<noteq> CHR ''x'')
     (''multipart/form-data; boundary='' @ lowerhex)"
  by code_simp

lemma detect_multipart:
  assumes b: "set b \<subseteq> set lowerhex" "b \<noteq> []" and key: "ToLower key = ''content-type''"
    and body: "body \<noteq> BodyNil"
  shows "bodyBranch (Some [(key, ''multipart/form-data; boundary='' @ b)]) body = MultipartFormData"
proof -
  let ?ct = "''multipart/form-data; boundary='' @ b"
  have chars: "list_all (\<lambda>c. lowerASCII c = c \<and> c \<noteq> CHR 0xE2 \<and> c \<noteq> CHR 0xC4 \<and> c \<noteq> CHR ''x'') ?ct"
    using multipart_chars b(1) unfolding list_all_iff by auto
  have left: "TrimLeftSpace ?ct = ?ct"
    by (subst TrimLeftSpace.simps) (simp add: leadingSpace_m)
  have "last ?ct = last b" using b(2) by simp
  with b have "last ?ct \<in> set lowerhex" by auto
  then have "trailingSpace ?ct = 0" by (intro trailingSpace_hex) simp_all
  then have right: "TrimRightSpace ?ct = ?ct"
    by (subst TrimRightSpace.simps) simp
  have trim: "TrimSpace ?ct = ?ct" by (simp only: TrimSpace_def left right)
  have lower: "ToLower ?ct = ?ct"
    by (rule ToLower_id) (use chars in \<open>auto simp: list_all_iff\<close>)
  have res: "resolveContentType (Some [(key, ?ct)]) body = ?ct"
    by (simp add: resolveContentType_def key trim [simplified] lower [simplified])
  have nox: "CHR ''x'' \<notin> set ?ct" using chars by (auto simp: list_all_iff)
  have "\<not> Contains ?ct ''application/x-www-form-urlencoded''"
  proof
    assume "Contains ?ct ''application/x-www-form-urlencoded''"
    from Contains_subset [OF this] nox show False by auto
  qed
  moreover have "\<not> Contains ?ct ''text/plain''"
  proof
    assume "Contains ?ct ''text/plain''"
    from Contains_subset [OF this] nox show False by auto
  qed
  moreover have "Contains ?ct ''multipart/form-data''"
    by (rule Contains_prefix) simp
  ultimately show ?thesis using body
    by (simp add: bodyBranch_def res [simplified] del: Contains.simps)
qed

lemma detect_literal:
  assumes key: "ToLower key = ''content-type''" and body: "body \<noteq> BodyNil"
  shows "bodyBranch (Some [(key, ''application/x-www-form-urlencoded'')]) body = FormURLEncoded"
    and "bodyBranch (Some [(key, ''text/plain'')]) body = TextPlain"
    and "bodyBranch (Some [(key, ''application/json'')]) body = JSON"
proof -
  have l: "ToLower (TrimSpace ''application/x-www-form-urlencoded'') = ''application/x-www-form-urlencoded''"
    "ToLower (TrimSpace ''text/plain'') = ''text/plain''"
    "ToLower (TrimSpace ''application/json'') = ''application/json''"
    by code_simp+
  have c: "Contains ''application/x-www-form-urlencoded'' ''application/x-www-form-urlencoded''"
    "\<not> Contains ''text/plain'' ''application/x-www-form-urlencoded''"
    "Contains ''text/plain'' ''text/plain''"
    "\<not> Contains ''application/json'' ''application/x-www-form-urlencoded''"
    "\<not> Contains ''application/json'' ''text/plain''"
    "\<not> Contains ''application/json'' ''multipart/form-data''"
    by code_simp+
  show "bodyBranch (Some [(key, ''application/x-www-form-urlencoded'')]) body = FormURLEncoded"
    using body by (simp add: bodyBranch_def resolveContentType_def key l c del: Contains.simps)
  show "bodyBranch (Some [(key, ''text/plain'')]) body = TextPlain"
    using body by (simp add: bodyBranch_def resolveContentType_def key l c del: Contains.simps)
  show "bodyBranch (Some [(key, ''application/json'')]) body = JSON"
    using body by (simp add: bodyBranch_def resolveContentType_def key l c del: Contains.simps)
qed

text \<open>
  Claim C8. When \<open>formatBody\<close> succeeds with a content type, a header map that declares that
  content type (under a key that is \<open>content-type\<close> in lower case) sends the same body to the
  same branch: form to form, plain text to plain text, JSON to JSON, multipart to multipart,
  and no body to no body. In the multipart branch the content type is
  \<open>multipart/form-data; boundary=\<close> followed by the boundary that the writer made for this
  call drew from the random source, which is not empty.
\<close>

theorem content_type_round_trip:
  assumes "formatBody headers body w = (Inr (reader, contentType), w')"
    "ToLower key = ''content-type''"
  shows "bodyBranch (Some [(key, contentType)]) body = bodyBranch headers body \<and>
    (bodyBranch headers body = MultipartFormData \<longrightarrow>
       randomBoundary (entropy w (writers w)) \<noteq> [] \<and>
       contentType = ''multipart/form-data; boundary='' @ randomBoundary (entropy w (writers w)) \<and>
       writers w' = writers w + 1)"
proof (cases "body = BodyNil")
  case True
  then show ?thesis by (simp add: bodyBranch_def)
next
  case False
  note lit = detect_literal [OF assms(2) False]
  show ?thesis
  proof (cases "bodyBranch headers body")
    case NoBody
    with False show ?thesis by (simp add: bodyBranch_def Let_def split: if_splits)
  next
    case FormURLEncoded
    with assms(1) have "contentType = ''application/x-www-form-urlencoded''"
      by (auto simp: formatBody_by_branch formatFormURLEncoded_def split: Body.splits)
    with FormURLEncoded lit show ?thesis by simp
  next
    case TextPlain
    with assms(1) have "contentType = ''text/plain''"
      by (auto simp: formatBody_by_branch formatTextPlain_def split: Body.splits)
    with TextPlain lit show ?thesis by simp
  next
    case JSON
    with assms(1) have "contentType = ''application/json''"
      by (auto simp: formatBody_by_branch formatJSON_def split: option.splits)
    with JSON lit show ?thesis by simp
  next
    case MultipartFormData
    let ?b = "randomBoundary (entropy w (writers w))"
    from MultipartFormData assms(1)
    have ct: "contentType = FormDataContentType ?b" and w': "writers w' = writers w + 1"
      by (auto simp: formatBody_by_branch formatMultipartFormData_def NewWriter_def
          split: Body.splits)
    have hex: "set ?b \<subseteq> set lowerhex" by (rule set_randomBoundary)
    have ne: "?b \<noteq> []" by (rule randomBoundary_nonempty)
    from ct have ct': "contentType = ''multipart/form-data; boundary='' @ ?b"
      by (simp only: FormDataContentType_hex [OF hex])
    from detect_multipart [OF hex ne assms(2) False] ct' MultipartFormData w' ne
    show ?thesis by simp
  qed
qed

theorem content_type_round_trip_witness:
  "formatBody (Some [(''Content-Type'', ''multipart/form-data'')]) (BodyStringMap [(''a'', ''b'')])
       (stubWorld (\<lambda>i. Inr okResponse)) =
     (Inr (Some (MultipartBuffer zeroBoundary [(''a'', ''b'')]),
           ''multipart/form-data; boundary='' @ zeroBoundary),
      (stubWorld (\<lambda>i. Inr okResponse))\<lparr>writers := 1\<rparr>) \<and>
   ToLower ''content-type'' = ''content-type'' \<and>
   bodyBranch (Some [(''Content-Type'', ''multipart/form-data'')]) (BodyStringMap [(''a'', ''b'')]) =
     MultipartFormData \<and>
   bodyBranch (Some [(''content-type'', ''multipart/form-data; boundary='' @ zeroBoundary)])
       (BodyStringMap [(''a'', ''b'')]) = MultipartFormData \<and>
   randomBoundary (entropy (stubWorld (\<lambda>i. Inr okResponse)) (writers (stubWorld (\<lambda>i. Inr okResponse)))) \<noteq> []"
proof -
  let ?hs = "Some [(''Content-Type'', ''multipart/form-data'')]"
  let ?body = "BodyStringMap [(''a'', ''b'')]"
  let ?w = "stubWorld (\<lambda>i. Inr okResponse)"
  have h1: "formatBody ?hs ?body ?w =
     (Inr (Some (MultipartBuffer zeroBoundary [(''a'', ''b'')]),
           ''multipart/form-data; boundary='' @ zeroBoundary), ?w\<lparr>writers := 1\<rparr>)"
    by (rule formatBody_stub_multipart)
  have h2: "ToLower ''content-type'' = ''content-type''" by code_simp
  have br: "bodyBranch ?hs ?body = MultipartFormData"
    by (simp add: bodyBranch_def resolve_declared_multipart Contains_multipart_literal
        del: Contains.simps)
  from content_type_round_trip [OF h1 h2] br h1 h2 show ?thesis
    by (simp add: randomBoundary_nonempty)
qed

end
